theory Spec2Isabelle
  imports Complex_Main "HOL-Library.AList" "HOL-Library.Log_Nat"
begin

section \<open>Python values\<close>

text \<open>
  The telemetry module (state-service/src/telemetry.py) probes dynamically typed data:
  action payloads, attribution entries, the identity file. Such data is a value of
  \<open>json\<close>: None, a bool, an int, a str, a list or a dict. A dict is an association
  list (Python dicts keep insertion order, and \<open>get_user_id\<close> reads the first key);
  lookup takes the first binding of a key. The numbers among these values are
  integers. The floats the module computes itself are modelled below.
\<close>

datatype json =
    JNull
  | JBool bool
  | JInt int
  | JStr string
  | JList "json list"
  | JDict "(string \<times> json) list"

type_synonym dict = "(string \<times> json) list"

text \<open>The exceptions the module can meet. \<open>OtherError\<close> stands for any exception raised
  by a collaborator outside this file (file system, network, dataset).\<close>

datatype exn =
  AttributeError | TypeError | ValueError | KeyError | IndexError | OtherError string

text \<open>\<open>d.get(k, default)\<close> on a dict.\<close>

definition dict_get :: "dict \<Rightarrow> string \<Rightarrow> json \<Rightarrow> json" where
  "dict_get d k dflt = (case map_of d k of None \<Rightarrow> dflt | Some v \<Rightarrow> v)"

text \<open>\<open>x.get(k)\<close> on any value: only a dict has the method.\<close>

fun py_get :: "json \<Rightarrow> string \<Rightarrow> exn + json" where
  "py_get (JDict d) k = Inr (dict_get d k JNull)"
| "py_get _ k = Inl AttributeError"

text \<open>\<open>x[k]\<close> with a str key: KeyError on a dict without the key, TypeError on anything
  that is not a dict.\<close>

fun py_getitem :: "json \<Rightarrow> string \<Rightarrow> exn + json" where
  "py_getitem (JDict d) k = (case map_of d k of None \<Rightarrow> Inl KeyError | Some v \<Rightarrow> Inr v)"
| "py_getitem _ k = Inl TypeError"

text \<open>\<open>isinstance(x, int)\<close> with the integer read: bool is a subclass of int.\<close>

fun as_int :: "json \<Rightarrow> int option" where
  "as_int (JInt n) = Some n"
| "as_int (JBool b) = Some (if b then 1 else 0)"
| "as_int _ = None"

text \<open>\<open>a - b\<close> and \<open>a // n\<close>: defined on integers (and bools), TypeError otherwise.\<close>

definition py_sub :: "json \<Rightarrow> json \<Rightarrow> exn + int" where
  "py_sub a b =
     (case (as_int a, as_int b) of
        (Some x, Some y) \<Rightarrow> Inr (x - y)
      | _ \<Rightarrow> Inl TypeError)"

definition py_floordiv :: "json \<Rightarrow> int \<Rightarrow> exn + int" where
  "py_floordiv a n = (case as_int a of Some x \<Rightarrow> Inr (x div n) | None \<Rightarrow> Inl TypeError)"

subsection \<open>Doubles\<close>

text \<open>
  A Python float is an IEEE 754 double, here the rational number it denotes. Python's
  true division of two ints and its addition of two floats return the exact result
  correctly rounded: to the nearest double, a tie going to the double whose significand
  is even. \<open>floor_log2\<close> is the binary exponent of a positive number, from the bit
  lengths of its numerator and denominator. \<open>round_double\<close> rounds to a multiple of the
  unit in the last place, \<open>2\<^sup>e\<^sup>-\<^sup>5\<^sup>2\<close>, with the exponent kept at \<open>-1022\<close> or more
  (the subnormal range). Results of magnitude \<open>2\<^sup>1\<^sup>0\<^sup>2\<^sup>4\<close> or more, where Python
  raises OverflowError or returns infinity, do not arise: the module divides a count
  by a number that is at least as big, and adds two such quotients.
\<close>

definition floor_log2 :: "rat \<Rightarrow> int" where
  "floor_log2 x =
     (case quotient_of x of
        (p, q) \<Rightarrow> (let d = bitlen p - bitlen q in if 2 powi d \<le> x then d else d - 1))"

definition round_half_even :: "rat \<Rightarrow> int" where
  "round_half_even r =
     (let f = \<lfloor>r\<rfloor>; d = r - of_int f
      in if d < 1 / 2 then f
         else if 1 / 2 < d then f + 1
         else if even f then f else f + 1)"

definition round_double :: "rat \<Rightarrow> rat" where
  "round_double x =
     (if x = 0 then 0
      else (let e = max (floor_log2 \<bar>x\<bar>) (- 1022);
                ulp = 2 powi (e - 52)
            in of_int (round_half_even (x / ulp)) * ulp))"

text \<open>\<open>a + b\<close> on two floats, and \<open>a / b\<close> on two ints that are not negative, with
  \<open>b\<close> not zero.\<close>

definition double_add :: "rat \<Rightarrow> rat \<Rightarrow> rat" where
  "double_add a b = round_double (a + b)"

definition true_divide :: "nat \<Rightarrow> nat \<Rightarrow> rat" where
  "true_divide a b = round_double (of_nat a / of_nat b)"

section \<open>Data model\<close>

text \<open>
  Modelled from the spec: the enum \<open>ActionIndex\<close>, imported from src/api/datatypes.py,
  whose declaration is missing. Its members are the closed enumeration of the spec,
  the seven names the module itself uses. The values of the members are not known, so
  the call \<open>ActionIndex(action_type)\<close> is a parameter \<open>coerce\<close> of the functions
  below: \<open>None\<close> is the ValueError (or TypeError) of a value that is no member's value.
\<close>

datatype ActionIndex =
    NO_OP
  | FILL_PARTIAL_LINE
  | REPLACE_AND_APPEND_SINGLE_LINE
  | REPLACE_AND_APPEND_MULTI_LINE
  | EDIT_EXISTING_LINES
  | EXPLAIN_SINGLE_LINES
  | EXPLAIN_MULTI_LINE

text \<open>Iteration over the enum, \<open>for action in ActionIndex\<close>.\<close>

definition ActionIndex_members :: "ActionIndex list" where
  "ActionIndex_members =
     [NO_OP, FILL_PARTIAL_LINE, REPLACE_AND_APPEND_SINGLE_LINE,
      REPLACE_AND_APPEND_MULTI_LINE, EDIT_EXISTING_LINES, EXPLAIN_SINGLE_LINES,
      EXPLAIN_MULTI_LINE]"

text \<open>
  Modelled from the spec: the values of the enum \<open>ActionIndex\<close>, whose declaration is
  missing. The spec's scenario gives \<open>"edit_existing_lines"\<close> as the type string of
  EDIT_EXISTING_LINES; every member is given its name in lower case. Only closed
  examples use this function.
\<close>

fun ActionIndex_by_name :: "json \<Rightarrow> ActionIndex option" where
  "ActionIndex_by_name (JStr s) =
     (if s = ''no_op'' then Some NO_OP
      else if s = ''fill_partial_line'' then Some FILL_PARTIAL_LINE
      else if s = ''replace_and_append_single_line'' then Some REPLACE_AND_APPEND_SINGLE_LINE
      else if s = ''replace_and_append_multi_line'' then Some REPLACE_AND_APPEND_MULTI_LINE
      else if s = ''edit_existing_lines'' then Some EDIT_EXISTING_LINES
      else if s = ''explain_single_lines'' then Some EXPLAIN_SINGLE_LINES
      else if s = ''explain_multi_line'' then Some EXPLAIN_MULTI_LINE
      else None)"
| "ActionIndex_by_name _ = None"

text \<open>
  Modelled from the spec: the environment snapshot of a state, whose declaration
  (src/store/schema.py) is missing. It is a dict that the module reads as
  \<open>env.get("compiled", False)\<close> and \<open>env.get("tests", {}).get("passed", 0)\<close>. It has the
  shape of the spec's data model (compiled: bool, tests: {passed: int}); each key may
  be absent, which is what the defaults of the reads are for.
\<close>

record tests_info =
  passed :: "int option"

record env_snapshot =
  compiled :: "bool option"
  tests :: "tests_info option"

text \<open>
  Modelled from the spec: the classes of an episode and of its states, imported from
  src/store/schema.py, whose declarations are missing. The fields are those the module
  reads. \<open>timestamp_ms\<close> is optional and nullable, and the module reads it with
  \<open>getattr(state, "timestamp_ms", default)\<close>: \<open>None\<close> is a state without the attribute,
  \<open>Some JNull\<close> is the attribute holding Python's None. \<open>action\<close> is an
  \<open>Optional[dict]\<close> (the module's own annotation), \<open>attribution\<close> a list whose entries
  the module inspects with \<open>isinstance\<close>. \<open>timestep\<close>, \<open>start_time\<close> and \<open>end_time\<close> are
  integers, so \<open>int(episode.start_time)\<close> is the value itself.
\<close>

record state =
  timestep :: int
  timestamp_ms :: "json option"
  action :: "dict option"
  attribution :: "json list"
  env :: env_snapshot

record Episode =
  episode_id :: string
  problem_id :: string
  start_time :: int
  end_time :: int
  states :: "state list"

definition env_compiled :: "env_snapshot \<Rightarrow> bool" where
  "env_compiled e = (case compiled e of None \<Rightarrow> False | Some b \<Rightarrow> b)"

definition env_tests_passed :: "env_snapshot \<Rightarrow> int" where
  "env_tests_passed e =
     (case tests e of
        None \<Rightarrow> 0
      | Some t \<Rightarrow> (case passed t of None \<Rightarrow> 0 | Some n \<Rightarrow> n))"

section \<open>Action Classifier\<close>

definition is_assistant_action :: "dict option \<Rightarrow> bool" where
  "is_assistant_action action_dict =
     (case action_dict of
        None \<Rightarrow> False
      | Some d \<Rightarrow> (if dict_get d ''A'' JNull \<noteq> JNull then True else False))"

text \<open>
  \<open>_get_cursor_line_from_attribution\<close>: the loop over the entries. The result
  \<open>JNull\<close> is Python's None. An entry with a cursor dict that has a \<open>"line"\<close> key ends
  the scan with that value, whatever it is; one with a \<open>"char"\<close> key ends it with
  \<open>max(1, char_pos // 80)\<close>, or with the TypeError of the division.
\<close>

fun cursor_scan :: "json list \<Rightarrow> exn + json" where
  "cursor_scan [] = Inr JNull"
| "cursor_scan (JDict a # rest) =
     (case map_of a ''cursor'' of
        None \<Rightarrow> cursor_scan rest
      | Some (JDict cursor_info) \<Rightarrow>
          (case map_of cursor_info ''line'' of
             Some line \<Rightarrow> Inr line
           | None \<Rightarrow>
               (case map_of cursor_info ''char'' of
                  Some _ \<Rightarrow>
                    (case py_floordiv (dict_get cursor_info ''char'' (JInt 0)) 80 of
                       Inl e \<Rightarrow> Inl e
                     | Inr q \<Rightarrow> Inr (JInt (max 1 q)))
                | None \<Rightarrow> cursor_scan rest))
      | Some _ \<Rightarrow> cursor_scan rest)"
| "cursor_scan (_ # rest) = cursor_scan rest"

definition get_cursor_line_from_attribution :: "json list \<Rightarrow> exn + json" where
  "get_cursor_line_from_attribution attribution_list =
     (if attribution_list = [] then Inr JNull else cursor_scan attribution_list)"

text \<open>\<open>_calculate_cursor_distance\<close>. The float \<open>0.0\<close> of the early returns is the
  integer 0 here.\<close>

definition calculate_cursor_distance :: "state \<Rightarrow> exn + int" where
  "calculate_cursor_distance st =
     (case action st of
        None \<Rightarrow> Inr 0
      | Some a \<Rightarrow>
          if a = [] then Inr 0
          else
            (let target_line = dict_get a ''target_line'' (JInt 1) in
             case get_cursor_line_from_attribution (attribution st) of
               Inl e \<Rightarrow> Inl e
             | Inr cursor_line \<Rightarrow>
                 if cursor_line = JNull then Inr 0
                 else (case py_sub target_line cursor_line of
                         Inl e \<Rightarrow> Inl e
                       | Inr d \<Rightarrow> Inr \<bar>d\<bar>)))"

text \<open>The accumulators of \<open>_compute_action_statistics\<close>. The two count dicts are
  association lists keyed by the enum.\<close>

record action_stats =
  assistant_actions :: "(ActionIndex \<times> nat) list"
  human_actions :: "(ActionIndex \<times> nat) list"
  edit_existing_distances :: "int list"
  explain_single_distances :: "int list"
  explain_multi_distances :: "int list"

definition initial_stats :: action_stats where
  "initial_stats =
     \<lparr> assistant_actions = map (\<lambda>a. (a, 0)) ActionIndex_members,
       human_actions = map (\<lambda>a. (a, 0)) ActionIndex_members,
       edit_existing_distances = [],
       explain_single_distances = [],
       explain_multi_distances = [] \<rparr>"

text \<open>\<open>counts[k] += 1\<close>: KeyError when the key is absent.\<close>

definition increment :: "ActionIndex \<Rightarrow> (ActionIndex \<times> nat) list \<Rightarrow> exn + (ActionIndex \<times> nat) list" where
  "increment k counts =
     (case map_of counts k of
        None \<Rightarrow> Inl KeyError
      | Some v \<Rightarrow> Inr (AList.update k (v + 1) counts))"

definition count_action :: "bool \<Rightarrow> ActionIndex \<Rightarrow> action_stats \<Rightarrow> exn + action_stats" where
  "count_action is_assistant action_enum acc =
     (if is_assistant then
        (case increment action_enum (assistant_actions acc) of
           Inl e \<Rightarrow> Inl e
         | Inr c \<Rightarrow> Inr (acc\<lparr>assistant_actions := c\<rparr>))
      else
        (case increment action_enum (human_actions acc) of
           Inl e \<Rightarrow> Inl e
         | Inr c \<Rightarrow> Inr (acc\<lparr>human_actions := c\<rparr>)))"

definition append_distance :: "ActionIndex \<Rightarrow> int \<Rightarrow> action_stats \<Rightarrow> action_stats" where
  "append_distance action_enum distance acc =
     (if action_enum = EDIT_EXISTING_LINES then
        acc\<lparr>edit_existing_distances := edit_existing_distances acc @ [distance]\<rparr>
      else if action_enum = EXPLAIN_SINGLE_LINES then
        acc\<lparr>explain_single_distances := explain_single_distances acc @ [distance]\<rparr>
      else if action_enum = EXPLAIN_MULTI_LINE then
        acc\<lparr>explain_multi_distances := explain_multi_distances acc @ [distance]\<rparr>
      else acc)"

text \<open>The clause \<open>except (ValueError, TypeError)\<close>.\<close>

definition caught :: "exn \<Rightarrow> bool" where
  "caught e = (e = ValueError \<or> e = TypeError)"

text \<open>
  One iteration of the loop of \<open>_compute_action_statistics\<close>: the accumulators after
  the state, or the exception that leaves the loop. The type is extracted
  (\<open>action_type_of\<close>, the conditional expression assigned to \<open>action_type\<close>) before the
  \<open>try\<close>, so its AttributeError propagates. Inside the \<open>try\<close>, a caught exception ends
  the iteration and keeps what the iteration had already written.
\<close>

definition action_type_of :: "dict \<Rightarrow> bool \<Rightarrow> exn + json" where
  "action_type_of a is_assistant =
     (if is_assistant then py_get (dict_get a ''A'' JNull) ''type''
      else py_get (dict_get a ''H'' JNull) ''type'')"

definition action_step :: "(json \<Rightarrow> ActionIndex option) \<Rightarrow> state \<Rightarrow> action_stats \<Rightarrow> exn + action_stats" where
  "action_step coerce st acc =
     (case action st of
        None \<Rightarrow> Inr acc
      | Some a \<Rightarrow>
          (let is_assistant = is_assistant_action (action st) in
           case action_type_of a is_assistant of
             Inl e \<Rightarrow> Inl e
           | Inr action_type \<Rightarrow>
               (case coerce action_type of
                  None \<Rightarrow> Inr acc
                | Some action_enum \<Rightarrow>
                    (case count_action is_assistant action_enum acc of
                       Inl e \<Rightarrow> if caught e then Inr acc else Inl e
                     | Inr acc1 \<Rightarrow>
                         if action_enum \<in> set [EDIT_EXISTING_LINES, EXPLAIN_SINGLE_LINES,
                                               EXPLAIN_MULTI_LINE]
                         then
                           (case calculate_cursor_distance st of
                              Inl e \<Rightarrow> if caught e then Inr acc1 else Inl e
                            | Inr distance \<Rightarrow> Inr (append_distance action_enum distance acc1))
                         else Inr acc1))))"

fun action_loop :: "(json \<Rightarrow> ActionIndex option) \<Rightarrow> state list \<Rightarrow> action_stats \<Rightarrow> exn + action_stats" where
  "action_loop coerce [] acc = Inr acc"
| "action_loop coerce (st # rest) acc =
     (case action_step coerce st acc of
        Inl e \<Rightarrow> Inl e
      | Inr acc1 \<Rightarrow> action_loop coerce rest acc1)"

definition compute_action_statistics :: "(json \<Rightarrow> ActionIndex option) \<Rightarrow> Episode \<Rightarrow> exn + action_stats" where
  "compute_action_statistics coerce episode = action_loop coerce (states episode) initial_stats"

section \<open>Outcome Analyzer: regression and progression rates\<close>

text \<open>The local counters of \<open>_compute_regression_rates\<close>.\<close>

record transition_counts =
  test_regressions :: nat
  compile_regressions :: nat
  test_progressions :: nat
  compile_progressions :: nat
  total_transitions :: nat

text \<open>The dict the function returns. Each rate is a float: the double that Python's
  true division of two ints returns, as the rational it denotes.\<close>

record regression_rates =
  test_regression_rate :: rat
  compile_regression_rate :: rat
  test_progression_rate :: rat
  compile_progression_rate :: rat

definition no_transitions :: transition_counts where
  "no_transitions =
     \<lparr> test_regressions = 0, compile_regressions = 0, test_progressions = 0,
       compile_progressions = 0, total_transitions = 0 \<rparr>"

text \<open>The body of \<open>for i in range(1, len(episode.states))\<close>; both reads are in range
  for every \<open>i\<close> of the loop.\<close>

definition transition_step :: "state list \<Rightarrow> nat \<Rightarrow> transition_counts \<Rightarrow> transition_counts" where
  "transition_step sts i c =
     (let prev_state = sts ! (i - 1);
          curr_state = sts ! i;
          prev_compiled = env_compiled (env prev_state);
          curr_compiled = env_compiled (env curr_state);
          prev_tests_passed = env_tests_passed (env prev_state);
          curr_tests_passed = env_tests_passed (env curr_state);
          c1 = (if prev_compiled \<and> \<not> curr_compiled then
                  c\<lparr>compile_regressions := compile_regressions c + 1\<rparr>
                else if \<not> prev_compiled \<and> curr_compiled then
                  c\<lparr>compile_progressions := compile_progressions c + 1\<rparr>
                else c);
          c2 = (if curr_tests_passed < prev_tests_passed then
                  c1\<lparr>test_regressions := test_regressions c1 + 1\<rparr>
                else if curr_tests_passed > prev_tests_passed then
                  c1\<lparr>test_progressions := test_progressions c1 + 1\<rparr>
                else c1)
      in c2\<lparr>total_transitions := total_transitions c2 + 1\<rparr>)"

definition count_transitions :: "state list \<Rightarrow> transition_counts" where
  "count_transitions sts = fold (transition_step sts) [1..<length sts] no_transitions"

text \<open>\<open>count / max(total_transitions, 1)\<close>; the divisor is never zero.\<close>

definition rate :: "nat \<Rightarrow> nat \<Rightarrow> rat" where
  "rate k transitions = true_divide k (max transitions 1)"

definition compute_regression_rates :: "Episode \<Rightarrow> regression_rates" where
  "compute_regression_rates episode =
     (if length (states episode) < 2 then
        \<lparr> test_regression_rate = 0, compile_regression_rate = 0,
          test_progression_rate = 0, compile_progression_rate = 0 \<rparr>
      else
        (let c = count_transitions (states episode) in
         \<lparr> test_regression_rate = rate (test_regressions c) (total_transitions c),
           compile_regression_rate = rate (compile_regressions c) (total_transitions c),
           test_progression_rate = rate (test_progressions c) (total_transitions c),
           compile_progression_rate = rate (compile_progressions c) (total_transitions c) \<rparr>))"

section \<open>Latency Analyzer\<close>

record latency_stats =
  p50_latency_ms :: int
  p90_latency_ms :: int
  p99_latency_ms :: int

text \<open>\<open>getattr(s, "timestamp_ms", None)\<close> followed by \<open>isinstance(_, int)\<close>.\<close>

definition timestamp_int :: "state \<Rightarrow> int option" where
  "timestamp_int s = (case timestamp_ms s of None \<Rightarrow> None | Some v \<Rightarrow> as_int v)"

definition latency_step :: "state list \<Rightarrow> nat \<Rightarrow> int list \<Rightarrow> int list" where
  "latency_step sts i latencies =
     (case (timestamp_int (sts ! (i - 1)), timestamp_int (sts ! i)) of
        (Some prev_ts, Some curr_ts) \<Rightarrow>
          (let delta = curr_ts - prev_ts in
           if delta > 0 then latencies @ [delta] else latencies)
      | _ \<Rightarrow> latencies)"

definition collect_latencies :: "state list \<Rightarrow> int list" where
  "collect_latencies sts = fold (latency_step sts) [1..<length sts] []"

text \<open>\<open>xs[i]\<close> for an index that is not negative: IndexError out of range.\<close>

definition py_nth :: "'a list \<Rightarrow> nat \<Rightarrow> exn + 'a" where
  "py_nth xs i = (if i < length xs then Inr (xs ! i) else Inl IndexError)"

text \<open>\<open>int(n * q)\<close> for the float literals \<open>0.5\<close>, \<open>0.9\<close> and \<open>0.99\<close>, written as
  \<open>num / 100\<close>: the product is taken exactly and truncated.\<close>

definition percentile_index :: "nat \<Rightarrow> nat \<Rightarrow> nat" where
  "percentile_index n num = n * num div 100"

definition no_latency :: latency_stats where
  "no_latency = \<lparr> p50_latency_ms = 0, p90_latency_ms = 0, p99_latency_ms = 0 \<rparr>"

definition percentile_at :: "int list \<Rightarrow> nat \<Rightarrow> exn + int" where
  "percentile_at latencies num =
     (let n = length latencies in
      if n > 0 then py_nth latencies (percentile_index n num) else Inr 0)"

definition compute_latency_stats :: "Episode \<Rightarrow> exn + latency_stats" where
  "compute_latency_stats episode =
     (if length (states episode) < 2 then Inr no_latency
      else
        (let sts = sort_key timestep (states episode);
             latencies = collect_latencies sts
         in if latencies = [] then Inr no_latency
            else
              (let latencies = sort latencies in
               case percentile_at latencies 50 of
                 Inl e \<Rightarrow> Inl e
               | Inr p50 \<Rightarrow>
                   (case percentile_at latencies 90 of
                      Inl e \<Rightarrow> Inl e
                    | Inr p90 \<Rightarrow>
                        (case percentile_at latencies 99 of
                           Inl e \<Rightarrow> Inl e
                         | Inr p99 \<Rightarrow>
                             Inr \<lparr> p50_latency_ms = p50, p90_latency_ms = p90,
                                   p99_latency_ms = p99 \<rparr>)))))"

section \<open>Record Assembler\<close>

text \<open>Truth value of a Python value, as \<open>if problem:\<close> takes it.\<close>

fun truthy :: "json \<Rightarrow> bool" where
  "truthy JNull = False"
| "truthy (JBool b) = b"
| "truthy (JInt n) = (n \<noteq> 0)"
| "truthy (JStr s) = (s \<noteq> [])"
| "truthy (JList xs) = (xs \<noteq> [])"
| "truthy (JDict d) = (d \<noteq> [])"

text \<open>
  \<open>int(s)\<close> on a str: surrounding white space is dropped, then an optional sign and
  decimal digits follow, where single underscores may separate digits. More than 4300
  digits are refused (the interpreter's default limit). A character is a code point
  below 256; the white space among these is tab, line feed, vertical tab, form feed,
  carriage return, space, U+0085 and U+00A0.
\<close>

definition is_space :: "char \<Rightarrow> bool" where
  "is_space c = (of_char c \<in> set [9, 10, 11, 12, 13, 32, 133, 160 :: nat])"

definition digit_value :: "char \<Rightarrow> nat option" where
  "digit_value c =
     (let n = of_char c :: nat in if 48 \<le> n \<and> n \<le> 57 then Some (n - 48) else None)"

fun parse_digits :: "string \<Rightarrow> int \<Rightarrow> bool \<Rightarrow> int option" where
  "parse_digits [] acc after_digit = (if after_digit then Some acc else None)"
| "parse_digits (c # cs) acc after_digit =
     (if c = CHR ''_'' then (if after_digit then parse_digits cs acc False else None)
      else (case digit_value c of
              None \<Rightarrow> None
            | Some d \<Rightarrow> parse_digits cs (acc * 10 + int d) True))"

definition parse_unsigned :: "string \<Rightarrow> int option" where
  "parse_unsigned s =
     (if length (filter (\<lambda>c. c \<noteq> CHR ''_'') s) > 4300 then None
      else parse_digits s 0 False)"

definition int_of_str :: "string \<Rightarrow> int option" where
  "int_of_str s =
     (case dropWhile is_space (rev (dropWhile is_space (rev s))) of
        [] \<Rightarrow> None
      | c # cs \<Rightarrow>
          if c = CHR ''+'' then parse_unsigned cs
          else if c = CHR ''-'' then map_option uminus (parse_unsigned cs)
          else parse_unsigned (c # cs))"

text \<open>\<open>int(x)\<close>: TypeError on None, a list or a dict; ValueError on a str that is not
  an integer literal.\<close>

fun py_int :: "json \<Rightarrow> exn + int" where
  "py_int (JInt n) = Inr n"
| "py_int (JBool b) = Inr (if b then 1 else 0)"
| "py_int (JStr s) = (case int_of_str s of None \<Rightarrow> Inl ValueError | Some n \<Rightarrow> Inr n)"
| "py_int _ = Inl TypeError"

text \<open>
  Modelled from the spec: the output record \<open>EpisodeSession\<close>, imported from
  src/api/datatypes.py, whose declaration is missing: a flat record of scalar
  fields. The fields are the keyword arguments the module passes to the constructor,
  which is taken to store them as given.
\<close>

record EpisodeSession =
  timestamp :: string
  duration_ms :: int
  total_turns :: nat
  user_id :: json
  question_id :: json
  ip_addr :: "string option"
  codeassist_version :: string
  success :: bool
  time_to_pass :: "int option"
  turns_to_pass :: "int option"
  test_regression_rate :: rat
  compile_regression_rate :: rat
  test_progression_rate :: rat
  compile_progression_rate :: rat
  p50_latency_ms :: int
  p90_latency_ms :: int
  p99_latency_ms :: int
  assistant_noop_count :: nat
  assistant_fill_partial_count :: nat
  assistant_write_single_count :: nat
  assistant_write_multi_count :: nat
  assistant_edit_existing_count :: nat
  assistant_explain_single_count :: nat
  assistant_explain_multi_count :: nat
  human_noop_count :: nat
  human_fill_partial_count :: nat
  human_write_single_count :: nat
  human_write_multi_count :: nat
  human_edit_existing_count :: nat
  human_explain_single_count :: nat
  human_explain_multi_count :: nat
  episode_id :: string

text \<open>
  What the module reads from outside itself, one outcome per collaborator: the
  environment variables, the identity file after \<open>open\<close> and \<open>json.load\<close>, the answer of
  the IP service, the dataset lookup \<open>_load_problem\<close> (src/utils.py), the outcome of
  \<open>requests.post\<close> with \<open>raise_for_status\<close>, and the clock. \<open>Inl\<close> is the exception the
  collaborator raises.
\<close>

record environment =
  DISABLE_TELEMETRY :: "string option"
  CODEASSIST_VERSION :: string
  user_key_map_file :: "exn + json"
  icanhazip :: "exn + string"
  load_problem :: "string \<Rightarrow> exn + json"
  post :: "EpisodeSession \<Rightarrow> exn + unit"
  now :: string

definition py_lower :: "string \<Rightarrow> string" where
  "py_lower s =
     map (\<lambda>c. let n = of_char c :: nat in
               if 65 \<le> n \<and> n \<le> 90 then char_of (n + 32) else c) s"

definition is_telemetry_disabled :: "environment \<Rightarrow> bool" where
  "is_telemetry_disabled environ =
     (py_lower (case DISABLE_TELEMETRY environ of None \<Rightarrow> ''false'' | Some v \<Rightarrow> v)
        \<in> set [''true'', ''1'', ''yes''])"

definition get_ip :: "environment \<Rightarrow> exn + string" where
  "get_ip environ = icanhazip environ"

text \<open>\<open>get_user_id\<close>: nothing in it catches an exception.\<close>

definition get_user_id :: "environment \<Rightarrow> exn + json" where
  "get_user_id environ =
     (case user_key_map_file environ of
        Inl e \<Rightarrow> Inl e
      | Inr user_key_map \<Rightarrow>
          (case user_key_map of
             JDict d \<Rightarrow>
               (case map fst d of
                  [] \<Rightarrow> Inr (JStr ''unknown'')
                | key # _ \<Rightarrow>
                    (case py_getitem user_key_map key of
                       Inl e \<Rightarrow> Inl e
                     | Inr entry \<Rightarrow>
                         (case py_getitem entry ''user'' of
                            Inl e \<Rightarrow> Inl e
                          | Inr user \<Rightarrow> py_getitem user ''accountAddress'')))
           | _ \<Rightarrow> Inl AttributeError))"

definition load_problem_question_id :: "environment \<Rightarrow> string \<Rightarrow> exn + json" where
  "load_problem_question_id environ pid =
     (case load_problem environ pid of
        Inl e \<Rightarrow> Inl e
      | Inr problem \<Rightarrow>
          if truthy problem then
            (case py_get problem ''question_id'' of
               Inl e \<Rightarrow> Inl e
             | Inr qid \<Rightarrow> if as_int qid \<noteq> None then Inr qid else Inr JNull)
          else Inr JNull)"

text \<open>\<open>max(episode.states, key=lambda s: s.timestep)\<close>: the first state of maximal
  timestep; \<open>None\<close> for an episode without states.\<close>

definition final_state :: "state list \<Rightarrow> state option" where
  "final_state sts =
     (case sts of
        [] \<Rightarrow> None
      | s # rest \<Rightarrow> Some (fold (\<lambda>x m. if timestep m < timestep x then x else m) rest s))"

definition passing :: "state \<Rightarrow> bool" where
  "passing s = (env_compiled (env s) \<and> env_tests_passed (env s) > 0)"

text \<open>The loop that looks for the first passing state, in order of timestep (the sort
  is stable), and the two fields it sets.\<close>

definition first_pass :: "Episode \<Rightarrow> exn + (int option \<times> int option)" where
  "first_pass episode =
     (case find passing (sort_key timestep (states episode)) of
        None \<Rightarrow> Inr (None, None)
      | Some s \<Rightarrow>
          (case py_int (case timestamp_ms s of None \<Rightarrow> JInt 0 | Some v \<Rightarrow> v) of
             Inl e \<Rightarrow> Inl e
           | Inr t \<Rightarrow> Inr (Some (max 0 (t - start_time episode)), Some (timestep s))))"

definition count_of :: "(ActionIndex \<times> nat) list \<Rightarrow> ActionIndex \<Rightarrow> nat" where
  "count_of counts k = (case map_of counts k of None \<Rightarrow> 0 | Some v \<Rightarrow> v)"

definition has_all_members :: "(ActionIndex \<times> nat) list \<Rightarrow> bool" where
  "has_all_members counts = list_all (\<lambda>k. map_of counts k \<noteq> None) ActionIndex_members"

text \<open>
  \<open>convert_episode_session_to_telemetry_event\<close>. Only the IP lookup sits in a \<open>try\<close>;
  every other exception leaves the function. The constructor call reads each member
  of the enum from both count dicts, a KeyError if one is absent.
\<close>

definition convert_episode_session_to_telemetry_event ::
  "environment \<Rightarrow> (json \<Rightarrow> ActionIndex option) \<Rightarrow> Episode \<Rightarrow> exn + EpisodeSession" where
  "convert_episode_session_to_telemetry_event environ coerce episode =
     (case get_user_id environ of
        Inl e \<Rightarrow> Inl e
      | Inr uid \<Rightarrow>
     (case load_problem_question_id environ (problem_id episode) of
        Inl e \<Rightarrow> Inl e
      | Inr qid \<Rightarrow>
     (let ip = (case get_ip environ of Inl e \<Rightarrow> None | Inr a \<Rightarrow> Some a);
          succ = (case final_state (states episode) of None \<Rightarrow> False | Some s \<Rightarrow> passing s)
      in
     (case (case final_state (states episode) of
              None \<Rightarrow> Inr (None, None)
            | Some s \<Rightarrow> first_pass episode) of
        Inl e \<Rightarrow> Inl e
      | Inr (ttp, turns) \<Rightarrow>
     (case compute_action_statistics coerce episode of
        Inl e \<Rightarrow> Inl e
      | Inr stats \<Rightarrow>
     (let rates = compute_regression_rates episode in
     (case compute_latency_stats episode of
        Inl e \<Rightarrow> Inl e
      | Inr lat \<Rightarrow>
     (let a = assistant_actions stats; h = human_actions stats in
      if \<not> (has_all_members a \<and> has_all_members h) then Inl KeyError
      else Inr
        \<lparr> timestamp = now environ,
          duration_ms = end_time episode - start_time episode,
          total_turns = length (states episode),
          user_id = uid,
          question_id = qid,
          ip_addr = ip,
          codeassist_version = CODEASSIST_VERSION environ,
          success = succ,
          time_to_pass = ttp,
          turns_to_pass = turns,
          test_regression_rate = regression_rates.test_regression_rate rates,
          compile_regression_rate = regression_rates.compile_regression_rate rates,
          test_progression_rate = regression_rates.test_progression_rate rates,
          compile_progression_rate = regression_rates.compile_progression_rate rates,
          p50_latency_ms = latency_stats.p50_latency_ms lat,
          p90_latency_ms = latency_stats.p90_latency_ms lat,
          p99_latency_ms = latency_stats.p99_latency_ms lat,
          assistant_noop_count = count_of a NO_OP,
          assistant_fill_partial_count = count_of a FILL_PARTIAL_LINE,
          assistant_write_single_count = count_of a REPLACE_AND_APPEND_SINGLE_LINE,
          assistant_write_multi_count = count_of a REPLACE_AND_APPEND_MULTI_LINE,
          assistant_edit_existing_count = count_of a EDIT_EXISTING_LINES,
          assistant_explain_single_count = count_of a EXPLAIN_SINGLE_LINES,
          assistant_explain_multi_count = count_of a EXPLAIN_MULTI_LINE,
          human_noop_count = count_of h NO_OP,
          human_fill_partial_count = count_of h FILL_PARTIAL_LINE,
          human_write_single_count = count_of h REPLACE_AND_APPEND_SINGLE_LINE,
          human_write_multi_count = count_of h REPLACE_AND_APPEND_MULTI_LINE,
          human_edit_existing_count = count_of h EDIT_EXISTING_LINES,
          human_explain_single_count = count_of h EXPLAIN_SINGLE_LINES,
          human_explain_multi_count = count_of h EXPLAIN_MULTI_LINE,
          episode_id = Episode.episode_id episode \<rparr>))))))))"

section \<open>Reporter\<close>

text \<open>What a call of \<open>push_telemetry_event_session\<close> that returns has done: nothing
  (telemetry disabled), sent the record, or logged the exception of the transport.\<close>

datatype push_result = Disabled | Pushed EpisodeSession | Logged exn EpisodeSession

text \<open>The record is assembled before the \<open>try\<close>: an exception of the assembly leaves
  the function. Every exception of the transport is caught.\<close>

definition push_telemetry_event_session ::
  "environment \<Rightarrow> (json \<Rightarrow> ActionIndex option) \<Rightarrow> Episode \<Rightarrow> exn + push_result" where
  "push_telemetry_event_session environ coerce episode =
     (if is_telemetry_disabled environ then Inr Disabled
      else
        (case convert_episode_session_to_telemetry_event environ coerce episode of
           Inl e \<Rightarrow> Inl e
         | Inr episode_session \<Rightarrow>
             (case post environ episode_session of
                Inl e \<Rightarrow> Inr (Logged e episode_session)
              | Inr _ \<Rightarrow> Inr (Pushed episode_session))))"

section \<open>Notions used in the properties\<close>

text \<open>A state whose action was classified: it has an action, the type is extracted
  without an exception, and the enum accepts the value.\<close>

definition classified :: "(json \<Rightarrow> ActionIndex option) \<Rightarrow> state \<Rightarrow> bool" where
  "classified coerce st =
     (case action st of
        None \<Rightarrow> False
      | Some a \<Rightarrow>
          (case action_type_of a (is_assistant_action (action st)) of
             Inl e \<Rightarrow> False
           | Inr action_type \<Rightarrow> coerce action_type \<noteq> None))"

text \<open>A state whose action type can be extracted: it has no action, or the branch of
  its action dict that the classifier reads is a dict.\<close>

definition extractable :: "state \<Rightarrow> bool" where
  "extractable st =
     (case action st of
        None \<Rightarrow> True
      | Some a \<Rightarrow>
          (case action_type_of a (is_assistant_action (action st)) of
             Inl e \<Rightarrow> False
           | Inr action_type \<Rightarrow> True))"

text \<open>The sum of all entries of both count dicts, and the property that each dict has
  exactly the members of the enum as keys.\<close>

definition counted :: "action_stats \<Rightarrow> nat" where
  "counted acc =
     sum_list (map snd (assistant_actions acc)) + sum_list (map snd (human_actions acc))"

definition complete_counts :: "action_stats \<Rightarrow> bool" where
  "complete_counts acc =
     (map fst (assistant_actions acc) = ActionIndex_members \<and>
      map fst (human_actions acc) = ActionIndex_members)"

text \<open>
  The spec's reading of the rates: the consecutive pairs of the states in stored order,
  the number of pairs that are a transition of a given kind, and the four kinds.
\<close>

definition consecutive_pairs :: "state list \<Rightarrow> (state \<times> state) list" where
  "consecutive_pairs sts = zip sts (tl sts)"

definition transitions_where :: "(state \<Rightarrow> state \<Rightarrow> bool) \<Rightarrow> state list \<Rightarrow> nat" where
  "transitions_where P sts = length (filter (\<lambda>(p, c). P p c) (consecutive_pairs sts))"

definition compile_regression :: "state \<Rightarrow> state \<Rightarrow> bool" where
  "compile_regression p c = (env_compiled (env p) \<and> \<not> env_compiled (env c))"

definition compile_progression :: "state \<Rightarrow> state \<Rightarrow> bool" where
  "compile_progression p c = (\<not> env_compiled (env p) \<and> env_compiled (env c))"

definition test_regression :: "state \<Rightarrow> state \<Rightarrow> bool" where
  "test_regression p c = (env_tests_passed (env c) < env_tests_passed (env p))"

definition test_progression :: "state \<Rightarrow> state \<Rightarrow> bool" where
  "test_progression p c = (env_tests_passed (env c) > env_tests_passed (env p))"

text \<open>The pairs of a kind among those the loop has visited before index \<open>k\<close>.\<close>

definition pairs_upto :: "(state \<Rightarrow> state \<Rightarrow> bool) \<Rightarrow> state list \<Rightarrow> nat \<Rightarrow> nat" where
  "pairs_upto P sts k = length (filter (\<lambda>i. P (sts ! (i - 1)) (sts ! i)) [1..<k])"

text \<open>The positive deltas between consecutive integer timestamps, in order of timestep:
  the list the Latency Analyzer takes its percentiles from.\<close>

definition valid_deltas :: "Episode \<Rightarrow> int list" where
  "valid_deltas episode = collect_latencies (sort_key timestep (states episode))"

text \<open>
  An attribution entry that yields no cursor line: it is not a dict, or it has no
  \<open>"cursor"\<close> key, or its cursor is not a dict, or its cursor dict has neither a
  \<open>"line"\<close> nor a \<open>"char"\<close> key.
\<close>

fun yields_no_cursor :: "json \<Rightarrow> bool" where
  "yields_no_cursor (JDict a) =
     (case map_of a ''cursor'' of
        None \<Rightarrow> True
      | Some (JDict cursor_info) \<Rightarrow>
          map_of cursor_info ''line'' = None \<and> map_of cursor_info ''char'' = None
      | Some _ \<Rightarrow> True)"
| "yields_no_cursor _ = True"

section \<open>Example inputs\<close>

definition empty_env :: env_snapshot where
  "empty_env = \<lparr> compiled = None, tests = None \<rparr>"

text \<open>The state of the spec's cursor scenario: the assistant edits existing lines with
  target line 10 while the cursor is on line 7.\<close>

definition edit_state :: state where
  "edit_state =
     \<lparr> timestep = 0, timestamp_ms = Some (JInt 0),
       action = Some [(''A'', JDict [(''type'', JStr ''edit_existing_lines''),
                                     (''target_line'', JInt 10)])],
       attribution = [JDict [(''cursor'', JDict [(''line'', JInt 7)])]],
       env = empty_env \<rparr>"

text \<open>A human no-op, and an assistant action of a type the enum does not know.\<close>

definition human_state :: state where
  "human_state =
     \<lparr> timestep = 1, timestamp_ms = Some (JInt 40),
       action = Some [(''H'', JDict [(''type'', JStr ''no_op'')])],
       attribution = [], env = empty_env \<rparr>"

definition unknown_type_state :: state where
  "unknown_type_state =
     \<lparr> timestep = 2, timestamp_ms = Some (JInt 90),
       action = Some [(''A'', JDict [(''type'', JStr ''teleport'')])],
       attribution = [], env = empty_env \<rparr>"

definition mixed_episode :: Episode where
  "mixed_episode =
     \<lparr> Episode.episode_id = ''ep-1'', problem_id = ''two-sum'', start_time = 0,
       end_time = 100, states = [edit_state, human_state, unknown_type_state] \<rparr>"

definition edit_episode :: Episode where
  "edit_episode =
     \<lparr> Episode.episode_id = ''ep-2'', problem_id = ''two-sum'', start_time = 0,
       end_time = 10, states = [edit_state] \<rparr>"

text \<open>A state whose action dict has neither an \<open>"A"\<close> nor an \<open>"H"\<close> branch.\<close>

definition untagged_state :: state where
  "untagged_state =
     \<lparr> timestep = 0, timestamp_ms = Some (JInt 0),
       action = Some [(''type'', JStr ''no_op'')],
       attribution = [], env = empty_env \<rparr>"

definition untagged_episode :: Episode where
  "untagged_episode =
     \<lparr> Episode.episode_id = ''ep-3'', problem_id = ''two-sum'', start_time = 0,
       end_time = 10, states = [untagged_state] \<rparr>"

text \<open>A passing state whose \<open>timestamp_ms\<close> is Python's None, and the same state without
  the attribute.\<close>

definition passing_env :: env_snapshot where
  "passing_env = \<lparr> compiled = Some True, tests = Some \<lparr> passed = Some 1 \<rparr> \<rparr>"

definition null_timestamp_state :: state where
  "null_timestamp_state =
     \<lparr> timestep = 0, timestamp_ms = Some JNull, action = None, attribution = [],
       env = passing_env \<rparr>"

definition null_timestamp_episode :: Episode where
  "null_timestamp_episode =
     \<lparr> Episode.episode_id = ''ep-4'', problem_id = ''two-sum'', start_time = 0,
       end_time = 10, states = [null_timestamp_state] \<rparr>"

definition empty_episode :: Episode where
  "empty_episode =
     \<lparr> Episode.episode_id = ''ep-5'', problem_id = ''two-sum'', start_time = 1000,
       end_time = 1000, states = [] \<rparr>"

text \<open>The three states of the spec's progression scenario: timesteps 0, 1, 2,
  timestamps 0, 100, 250, compiled false, true, true, passed tests 0, 0, 1. The
  scenario names no action; the states have none.\<close>

definition scenario_state :: "int \<Rightarrow> int \<Rightarrow> bool \<Rightarrow> int \<Rightarrow> state" where
  "scenario_state step ts is_compiled n_passed =
     \<lparr> timestep = step, timestamp_ms = Some (JInt ts), action = None, attribution = [],
       env = \<lparr> compiled = Some is_compiled, tests = Some \<lparr> passed = Some n_passed \<rparr> \<rparr> \<rparr>"

definition scenario_states :: "state list" where
  "scenario_states =
     [scenario_state 0 0 False 0, scenario_state 1 100 True 0, scenario_state 2 250 True 1]"

definition scenario_episode :: Episode where
  "scenario_episode =
     \<lparr> Episode.episode_id = ''ep-6'', problem_id = ''two-sum'', start_time = 0,
       end_time = 250, states = scenario_states \<rparr>"

text \<open>An environment in which every collaborator answers, and one whose identity file
  cannot be opened.\<close>

definition good_environ :: environment where
  "good_environ =
     \<lparr> DISABLE_TELEMETRY = None,
       CODEASSIST_VERSION = ''unknown'',
       user_key_map_file =
         Inr (JDict [(''key-1'', JDict [(''user'', JDict [(''accountAddress'', JStr ''0xabc'')])])]),
       icanhazip = Inr ''203.0.113.7'',
       load_problem = (\<lambda>pid. Inr (JDict [(''question_id'', JInt 1)])),
       post = (\<lambda>session. Inr ()),
       now = ''2025-01-01T00:00:00+00:00'' \<rparr>"

definition unreadable_identity_environ :: environment where
  "unreadable_identity_environ =
     good_environ\<lparr>user_key_map_file := Inl (OtherError ''FileNotFoundError'')\<rparr>"

text \<open>Attribution entries without a usable cursor: a number, a dict without a cursor,
  a cursor that is a string, a cursor dict with a column only.\<close>

definition cursorless_entries :: "json list" where
  "cursorless_entries =
     [JInt 3, JDict [(''author'', JStr ''human'')], JDict [(''cursor'', JStr ''7'')],
      JDict [(''cursor'', JDict [(''column'', JInt 2)])]]"

definition cursorless_state :: state where
  "cursorless_state = edit_state\<lparr>attribution := cursorless_entries\<rparr>"

text \<open>The passing state with a \<open>timestamp_ms\<close> that is a word, and without the attribute.\<close>

definition worded_timestamp_episode :: Episode where
  "worded_timestamp_episode =
     null_timestamp_episode
       \<lparr>states := [null_timestamp_state\<lparr>timestamp_ms := Some (JStr ''soon'')\<rparr>]\<rparr>"

definition missing_timestamp_episode :: Episode where
  "missing_timestamp_episode =
     null_timestamp_episode\<lparr>states := [null_timestamp_state\<lparr>timestamp_ms := None\<rparr>]\<rparr>"

text \<open>Thirty states that compile at every odd position: 29 transitions, 15 compile
  progressions and 14 compile regressions.\<close>

definition alternating_states :: "state list" where
  "alternating_states =
     map (\<lambda>i. \<lparr> timestep = int i, timestamp_ms = None, action = None, attribution = [],
                 env = \<lparr> compiled = Some (odd i), tests = None \<rparr> \<rparr>) [0..<30]"

definition alternating_episode :: Episode where
  "alternating_episode =
     \<lparr> Episode.episode_id = ''ep-7'', problem_id = ''two-sum'', start_time = 0,
       end_time = 0, states = alternating_states \<rparr>"

section \<open>Properties of the Action Classifier\<close>

lemmas classifier_defs =
  compute_action_statistics_def action_step_def action_type_of_def is_assistant_action_def
  initial_stats_def ActionIndex_members_def count_action_def increment_def caught_def
  append_distance_def calculate_cursor_distance_def get_cursor_line_from_attribution_def
  dict_get_def py_sub_def py_floordiv_def

lemma ActionIndex_members_all: "k \<in> set ActionIndex_members"
  by (cases k) (simp_all add: ActionIndex_members_def)

lemma update_keeps_keys:
  "map_of counts k = Some v \<Longrightarrow> map fst (AList.update k w counts) = map fst counts"
  by (induction counts) (auto split: if_splits)

lemma update_adds_one:
  "map_of counts k = Some v \<Longrightarrow>
   sum_list (map snd (AList.update k (v + 1) counts)) = sum_list (map snd counts) + (1::nat)"
  by (induction counts) (auto split: if_splits)

lemma increment_keys:
  "increment k counts = Inr c \<Longrightarrow> map fst c = map fst counts"
  by (auto simp: increment_def update_keeps_keys split: option.splits)

lemma increment_sum:
  "increment k counts = Inr c \<Longrightarrow> sum_list (map snd c) = sum_list (map snd counts) + 1"
  using update_adds_one [of counts k] by (auto simp: increment_def split: option.splits)

text \<open>With every member present, \<open>counts[k] += 1\<close> never raises KeyError.\<close>

lemma increment_total:
  assumes "map fst counts = ActionIndex_members"
  shows "\<exists>c. increment k counts = Inr c"
proof -
  have "k \<in> fst ` set counts"
    using assms ActionIndex_members_all [of k] by (metis set_map)
  then have "map_of counts k \<noteq> None"
    by (simp add: map_of_eq_None_iff)
  then show ?thesis
    by (auto simp: increment_def)
qed

lemma count_action_complete:
  "count_action b k acc = Inr acc1 \<Longrightarrow> complete_counts acc \<Longrightarrow>
   complete_counts acc1 \<and> counted acc1 = counted acc + 1"
  by (auto simp: count_action_def complete_counts_def counted_def
      split: if_splits sum.splits dest: increment_keys increment_sum)

lemma count_action_total:
  "complete_counts acc \<Longrightarrow> \<exists>acc1. count_action b k acc = Inr acc1"
  using increment_total [of "assistant_actions acc" k] increment_total [of "human_actions acc" k]
  by (auto simp: count_action_def complete_counts_def)

lemma append_distance_counts:
  "assistant_actions (append_distance k d acc) = assistant_actions acc \<and>
   human_actions (append_distance k d acc) = human_actions acc"
  by (simp add: append_distance_def)

text \<open>One iteration keeps both dicts complete and adds one to the sum exactly when the
  state is classified.\<close>

lemma action_step_counts:
  assumes "action_step coerce st acc = Inr acc1" and "complete_counts acc"
  shows "complete_counts acc1 \<and>
         counted acc1 = counted acc + (if classified coerce st then 1 else 0)"
proof (cases "action st")
  case None
  with assms show ?thesis
    by (simp add: action_step_def classified_def)
next
  case (Some a)
  show ?thesis
  proof (cases "action_type_of a (is_assistant_action (action st))")
    case (Inl e)
    with assms Some show ?thesis
      by (simp add: action_step_def)
  next
    case (Inr ty)
    show ?thesis
    proof (cases "coerce ty")
      case None
      with assms \<open>action st = Some a\<close> Inr show ?thesis
        by (simp add: action_step_def classified_def)
    next
      case (Some k)
      obtain acc2 where c: "count_action (is_assistant_action (action st)) k acc = Inr acc2"
        using count_action_total [OF assms(2)] by blast
      have inv2: "complete_counts acc2 \<and> counted acc2 = counted acc + 1"
        using count_action_complete [OF c assms(2)] .
      have cl: "classified coerce st"
        using \<open>action st = Some a\<close> Inr Some by (simp add: classified_def)
      have "acc1 = acc2 \<or> (\<exists>d. acc1 = append_distance k d acc2)"
        using assms(1) \<open>action st = Some a\<close> Inr Some c
        by (auto simp: action_step_def Let_def split: if_splits sum.splits)
      then show ?thesis
        using inv2 cl by (auto simp: complete_counts_def counted_def append_distance_counts)
    qed
  qed
qed

lemma action_loop_counts:
  "action_loop coerce sts acc = Inr out \<Longrightarrow> complete_counts acc \<Longrightarrow>
   complete_counts out \<and> counted out = counted acc + length (filter (classified coerce) sts)"
proof (induction sts arbitrary: acc)
  case Nil
  then show ?case by simp
next
  case (Cons st rest)
  from Cons.prems(1) obtain acc1 where s: "action_step coerce st acc = Inr acc1"
    and l: "action_loop coerce rest acc1 = Inr out"
    by (auto split: sum.splits)
  from action_step_counts [OF s Cons.prems(2)] Cons.IH [OF l] show ?case
    by auto
qed

lemma initial_stats_complete: "complete_counts initial_stats \<and> counted initial_stats = 0"
  by (simp add: complete_counts_def counted_def initial_stats_def comp_def
      ActionIndex_members_def)

text \<open>
  Claim C7. Whenever \<open>_compute_action_statistics\<close> returns, the assistant and the human
  count dict each have an entry for every member of the enum, seven entries in all,
  and the entries of both dicts add up to the number of states whose action was
  classified.
\<close>

theorem action_counts_complete_and_sum:
  assumes "compute_action_statistics coerce episode = Inr stats"
  shows "(\<forall>k. map_of (assistant_actions stats) k \<noteq> None) \<and>
         (\<forall>k. map_of (human_actions stats) k \<noteq> None) \<and>
         length (assistant_actions stats) = 7 \<and> length (human_actions stats) = 7 \<and>
         sum_list (map snd (assistant_actions stats)) + sum_list (map snd (human_actions stats))
           = length (filter (classified coerce) (states episode))"
proof -
  have inv: "complete_counts stats \<and>
             counted stats = length (filter (classified coerce) (states episode))"
    using action_loop_counts [of coerce "states episode" initial_stats stats] assms
      initial_stats_complete
    by (simp add: compute_action_statistics_def)
  have keys: "map fst (assistant_actions stats) = ActionIndex_members"
             "map fst (human_actions stats) = ActionIndex_members"
    using inv by (simp_all add: complete_counts_def)
  have "\<And>k. k \<in> fst ` set (assistant_actions stats)"
    using keys(1) ActionIndex_members_all by (metis set_map)
  moreover have "\<And>k. k \<in> fst ` set (human_actions stats)"
    using keys(2) ActionIndex_members_all by (metis set_map)
  moreover have "length (assistant_actions stats) = 7" "length (human_actions stats) = 7"
    using keys [THEN arg_cong, of length] by (simp_all add: ActionIndex_members_def)
  ultimately show ?thesis
    using inv by (simp add: map_of_eq_None_iff counted_def)
qed

text \<open>The mixed episode: the edit and the human no-op are classified, the unknown type
  is not, and the entries add up to 2.\<close>

lemma mixed_episode_statistics:
  "compute_action_statistics ActionIndex_by_name mixed_episode =
     Inr \<lparr> assistant_actions =
             [(NO_OP, 0), (FILL_PARTIAL_LINE, 0), (REPLACE_AND_APPEND_SINGLE_LINE, 0),
              (REPLACE_AND_APPEND_MULTI_LINE, 0), (EDIT_EXISTING_LINES, 1),
              (EXPLAIN_SINGLE_LINES, 0), (EXPLAIN_MULTI_LINE, 0)],
           human_actions =
             [(NO_OP, 1), (FILL_PARTIAL_LINE, 0), (REPLACE_AND_APPEND_SINGLE_LINE, 0),
              (REPLACE_AND_APPEND_MULTI_LINE, 0), (EDIT_EXISTING_LINES, 0),
              (EXPLAIN_SINGLE_LINES, 0), (EXPLAIN_MULTI_LINE, 0)],
           edit_existing_distances = [6],
           explain_single_distances = [],
           explain_multi_distances = [] \<rparr>"
  by (simp add: mixed_episode_def edit_state_def human_state_def unknown_type_state_def
      classifier_defs)

theorem action_counts_complete_and_sum_witness:
  "(\<exists>stats. compute_action_statistics ActionIndex_by_name mixed_episode = Inr stats \<and>
      sum_list (map snd (assistant_actions stats)) + sum_list (map snd (human_actions stats)) = 2) \<and>
   length (filter (classified ActionIndex_by_name) (states mixed_episode)) = 2"
  using action_counts_complete_and_sum [OF mixed_episode_statistics]
    mixed_episode_statistics
  by simp

subsection \<open>When the classifier returns\<close>

text \<open>The cursor distance raises nothing but TypeError, which the classifier catches.\<close>

lemma cursor_scan_error: "cursor_scan entries = Inl e \<Longrightarrow> e = TypeError"
  by (induction entries rule: cursor_scan.induct)
     (auto simp: py_floordiv_def split: option.splits json.splits sum.splits)

lemma calculate_cursor_distance_error:
  "calculate_cursor_distance st = Inl e \<Longrightarrow> caught e"
  by (auto simp: calculate_cursor_distance_def get_cursor_line_from_attribution_def Let_def
      py_sub_def caught_def
      split: option.splits if_splits sum.splits dest: cursor_scan_error)

lemma action_type_of_error: "action_type_of a b = Inl e \<Longrightarrow> e = AttributeError"
  by (cases "dict_get a ''A'' JNull"; cases "dict_get a ''H'' JNull")
     (auto simp: action_type_of_def split: if_splits)

lemma action_step_returns:
  assumes "complete_counts acc" and "extractable st"
  shows "\<exists>acc1. action_step coerce st acc = Inr acc1"
proof (cases "action st")
  case None
  then show ?thesis by (simp add: action_step_def)
next
  case (Some a)
  then obtain ty where ty: "action_type_of a (is_assistant_action (action st)) = Inr ty"
    using assms(2) by (auto simp: extractable_def split: sum.splits)
  show ?thesis
  proof (cases "coerce ty")
    case None
    with Some ty show ?thesis by (simp add: action_step_def)
  next
    case (Some k)
    obtain acc2 where c: "count_action (is_assistant_action (action st)) k acc = Inr acc2"
      using count_action_total [OF assms(1)] by blast
    show ?thesis
      using \<open>action st = Some a\<close> ty Some c calculate_cursor_distance_error [of st]
      by (auto simp: action_step_def split: sum.splits)
  qed
qed

lemma action_step_raises:
  assumes "\<not> extractable st"
  shows "action_step coerce st acc = Inl AttributeError"
  using assms
  by (auto simp: extractable_def action_step_def split: option.splits sum.splits
      dest: action_type_of_error)

text \<open>The loop returns exactly when the type of every state can be extracted; the only
  exception that leaves it is the AttributeError of the extraction.\<close>

lemma action_loop_returns:
  "complete_counts acc \<Longrightarrow>
   (\<exists>out. action_loop coerce sts acc = Inr out) = list_all extractable sts"
proof (induction sts arbitrary: acc)
  case Nil
  then show ?case by simp
next
  case (Cons st rest)
  show ?case
  proof (cases "extractable st")
    case True
    then obtain acc1 where s: "action_step coerce st acc = Inr acc1"
      using action_step_returns [OF Cons.prems] by blast
    have "complete_counts acc1"
      using action_step_counts [OF s Cons.prems] by simp
    then show ?thesis
      using Cons.IH [of acc1] s True by simp
  next
    case False
    then show ?thesis
      by (simp add: action_step_raises)
  qed
qed

lemma compute_action_statistics_returns:
  "(\<exists>stats. compute_action_statistics coerce episode = Inr stats) =
     list_all extractable (states episode)"
  using action_loop_returns [of initial_stats coerce "states episode"] initial_stats_complete
  by (simp add: compute_action_statistics_def)

section \<open>Properties of the rounding to a double\<close>

lemma round_half_even_error: "\<bar>of_int (round_half_even r) - r\<bar> \<le> 1 / 2"
proof -
  have "of_int \<lfloor>r\<rfloor> \<le> r" "r < of_int \<lfloor>r\<rfloor> + 1"
    by linarith+
  then show ?thesis
    by (auto simp: round_half_even_def Let_def)
qed

lemma round_half_even_of_int [simp]: "round_half_even (of_int k) = k"
  by (simp add: round_half_even_def)

lemma round_half_even_range:
  "\<lfloor>r\<rfloor> \<le> round_half_even r \<and> round_half_even r \<le> \<lfloor>r\<rfloor> + 1"
  by (simp add: round_half_even_def Let_def)

lemma round_half_even_mono:
  assumes "r \<le> s"
  shows "round_half_even r \<le> round_half_even s"
proof (cases "\<lfloor>r\<rfloor> = \<lfloor>s\<rfloor>")
  case True
  then show ?thesis
    using assms by (auto simp: round_half_even_def Let_def)
next
  case False
  then have "\<lfloor>r\<rfloor> < \<lfloor>s\<rfloor>"
    using assms floor_mono [of r s] by linarith
  then show ?thesis
    using round_half_even_range [of r] round_half_even_range [of s] by linarith
qed

lemma round_half_even_tie: "even k \<Longrightarrow> round_half_even (of_int k + 1 / 2) = k"
proof -
  assume e: "even k"
  have "\<lfloor>(of_int k + 1 / 2 :: rat)\<rfloor> = k"
    by linarith
  then show ?thesis
    using e by (simp add: round_half_even_def Let_def)
qed

text \<open>\<open>floor_log2\<close> is the exponent of the binade of a positive number.\<close>

lemma floor_log2_bounds:
  assumes "0 < x"
  shows "2 powi floor_log2 x \<le> x \<and> x < 2 powi (floor_log2 x + 1)"
proof -
  obtain p q where pq: "quotient_of x = (p, q)"
    by (cases "quotient_of x")
  have q: "0 < q"
    using pq by (rule quotient_of_denom_pos)
  have x: "x = of_int p / of_int q"
    using pq by (rule quotient_of_div)
  have p: "0 < p"
    using assms q x by (simp add: zero_less_divide_iff)
  define d where "d = bitlen p - bitlen q"
  have bp: "1 \<le> bitlen p" and bq: "1 \<le> bitlen q"
    using p q bitlen_eq_zero_iff [of p] bitlen_eq_zero_iff [of q] bitlen_nonneg [of p]
      bitlen_nonneg [of q] by linarith+
  have p_lo: "(2::rat) powi (bitlen p - 1) \<le> of_int p"
   and p_hi: "of_int p < (2::rat) powi bitlen p"
  proof -
    have "2 ^ nat (bitlen p - 1) \<le> p" "p < 2 ^ nat (bitlen p)"
      using bitlen_bounds [OF p] by simp_all
    then have "(of_int (2 ^ nat (bitlen p - 1)) :: rat) \<le> of_int p"
              "(of_int p :: rat) < of_int (2 ^ nat (bitlen p))"
      by (simp_all only: of_int_le_iff of_int_less_iff)
    then show "(2::rat) powi (bitlen p - 1) \<le> of_int p" "of_int p < (2::rat) powi bitlen p"
      using bp by (simp_all add: power_int_def)
  qed
  have q_lo: "(2::rat) powi (bitlen q - 1) \<le> of_int q"
   and q_hi: "of_int q < (2::rat) powi bitlen q"
  proof -
    have "2 ^ nat (bitlen q - 1) \<le> q" "q < 2 ^ nat (bitlen q)"
      using bitlen_bounds [OF q] by simp_all
    then have "(of_int (2 ^ nat (bitlen q - 1)) :: rat) \<le> of_int q"
              "(of_int q :: rat) < of_int (2 ^ nat (bitlen q))"
      by (simp_all only: of_int_le_iff of_int_less_iff)
    then show "(2::rat) powi (bitlen q - 1) \<le> of_int q" "of_int q < (2::rat) powi bitlen q"
      using bq by (simp_all add: power_int_def)
  qed
  have lo: "(2::rat) powi (d - 1) \<le> x"
  proof -
    have "(2::rat) powi (d - 1) = 2 powi (bitlen p - 1) / 2 powi bitlen q"
      by (simp add: d_def power_int_diff [symmetric] algebra_simps)
    also have "\<dots> \<le> of_int p / of_int q"
      using p_lo q_hi q p by (intro frac_le) (simp_all add: zero_less_power_int)
    finally show ?thesis
      by (simp add: x)
  qed
  have hi: "x < (2::rat) powi (d + 1)"
  proof -
    have "of_int p / of_int q < (2::rat) powi bitlen p / 2 powi (bitlen q - 1)"
      using p_hi q_lo p q by (intro frac_less) (simp_all add: zero_less_power_int)
    also have "\<dots> = 2 powi (d + 1)"
      by (simp add: d_def power_int_diff [symmetric] algebra_simps)
    finally show ?thesis
      by (simp add: x)
  qed
  have "floor_log2 x = (if 2 powi d \<le> x then d else d - 1)"
    by (simp add: floor_log2_def pq d_def Let_def)
  then show ?thesis
    using lo hi by (auto simp: not_le)
qed

lemma floor_log2_less:
  assumes "0 < x" and "x < 2 powi m"
  shows "floor_log2 x < m"
proof (rule ccontr)
  assume "\<not> floor_log2 x < m"
  then have "(2::rat) powi m \<le> 2 powi floor_log2 x"
    by (intro power_int_increasing) simp_all
  then show False
    using floor_log2_bounds [OF assms(1)] assms(2) by linarith
qed

lemma floor_log2_eq:
  assumes "2 powi m \<le> x" and "x < 2 powi (m + 1)"
  shows "floor_log2 x = m"
proof -
  have pos: "0 < x"
    using assms(1) zero_less_power_int [of "2::rat" m] by linarith
  have "floor_log2 x < m + 1"
    using pos assms(2) by (rule floor_log2_less)
  moreover have "m < floor_log2 x + 1"
  proof (rule ccontr)
    assume "\<not> m < floor_log2 x + 1"
    then have "(2::rat) powi (floor_log2 x + 1) \<le> 2 powi m"
      by (intro power_int_increasing) simp_all
    then show False
      using floor_log2_bounds [OF pos] assms(1) by linarith
  qed
  ultimately show ?thesis
    by linarith
qed

text \<open>The rounding moves a positive number by at most half a unit in its last place.\<close>

lemma round_double_error:
  assumes "0 < x"
  shows "\<bar>round_double x - x\<bar> \<le> 2 powi (max (floor_log2 x) (- 1022) - 53)"
proof -
  define u :: rat where "u = 2 powi (max (floor_log2 x) (- 1022) - 52)"
  have u: "0 < u"
    by (simp add: u_def zero_less_power_int)
  have rd: "round_double x = of_int (round_half_even (x / u)) * u"
    using assms by (simp add: round_double_def Let_def u_def)
  have "round_double x - x = (of_int (round_half_even (x / u)) - x / u) * u"
    using u by (simp add: rd field_simps)
  then have "\<bar>round_double x - x\<bar> = \<bar>of_int (round_half_even (x / u)) - x / u\<bar> * u"
    using u by (simp add: abs_mult)
  also have "\<dots> \<le> 1 / 2 * u"
    using u round_half_even_error [of "x / u"] by (intro mult_right_mono) simp_all
  also have "\<dots> = 2 powi (max (floor_log2 x) (- 1022) - 53)"
  proof -
    have "(2::rat) powi (max (floor_log2 x) (- 1022) - 52)
            = 2 powi ((max (floor_log2 x) (- 1022) - 53) + 1)"
      by (simp add: algebra_simps)
    also have "\<dots> = 2 powi (max (floor_log2 x) (- 1022) - 53) * 2"
      by (rule power_int_add_1) simp
    finally show ?thesis
      by (simp add: u_def)
  qed
  finally show ?thesis .
qed

lemma round_double_error_below:
  assumes "0 < x" and "x < 2 powi m" and "- 1021 \<le> m"
  shows "\<bar>round_double x - x\<bar> \<le> 2 powi (m - 54)"
proof -
  have "floor_log2 x < m"
    using assms(1,2) by (rule floor_log2_less)
  then have "max (floor_log2 x) (- 1022) - 53 \<le> m - 54"
    using assms(3) by simp
  then have "(2::rat) powi (max (floor_log2 x) (- 1022) - 53) \<le> 2 powi (m - 54)"
    by (intro power_int_increasing) simp_all
  then show ?thesis
    using round_double_error [OF assms(1)] by linarith
qed

text \<open>Numbers between 0 and 1 round to doubles between 0 and 1, and so does every
  number up to \<open>1 + 2\<^sup>-\<^sup>5\<^sup>3\<close>: the tie goes to 1, whose significand is even.\<close>

lemma round_double_nonneg:
  assumes "0 \<le> x"
  shows "0 \<le> round_double x"
proof (cases "x = 0")
  case True
  then show ?thesis by (simp add: round_double_def)
next
  case False
  define u :: rat where "u = 2 powi (max (floor_log2 \<bar>x\<bar>) (- 1022) - 52)"
  have u: "0 < u"
    by (simp add: u_def zero_less_power_int)
  have "round_half_even 0 \<le> round_half_even (x / u)"
    using assms u by (intro round_half_even_mono) simp
  then have "0 \<le> round_half_even (x / u)"
    using round_half_even_of_int [of 0] by simp
  then show ?thesis
    using False u by (simp add: round_double_def Let_def u_def [symmetric])
qed

lemma round_double_le_one:
  assumes "0 \<le> x" and "x \<le> 1 + 1 / 2 ^ 53"
  shows "round_double x \<le> 1"
proof (cases "x = 0")
  case True
  then show ?thesis by (simp add: round_double_def)
next
  case False
  then have pos: "0 < x"
    using assms(1) by simp
  have "x < 2 powi 1"
    using assms(2) by simp
  then have "floor_log2 x < 1"
    using pos by (intro floor_log2_less)
  then have e: "max (floor_log2 x) (- 1022) \<le> 0"
    by simp
  define e where "e = max (floor_log2 x) (- 1022)"
  define u :: rat where "u = 2 powi (e - 52)"
  have u: "0 < u"
    by (simp add: u_def zero_less_power_int)
  have rd: "round_double x = of_int (round_half_even (x / u)) * u"
    using pos by (simp add: round_double_def Let_def u_def e_def)
  have inv: "1 / u = of_int (2 ^ nat (52 - e))"
  proof -
    have "1 / u = inverse ((2::rat) powi (e - 52))"
      by (simp add: u_def inverse_eq_divide)
    also have "\<dots> = (2::rat) powi (- (e - 52))"
      by (simp only: power_int_minus)
    also have "\<dots> = 2 powi int (nat (52 - e))"
      using e by (simp add: e_def)
    also have "\<dots> = 2 ^ nat (52 - e)"
      by (rule power_int_of_nat)
    finally show ?thesis by simp
  qed
  have "round_half_even (x / u) \<le> 2 ^ nat (52 - e)"
  proof (cases "x \<le> 1")
    case True
    then have "x / u \<le> 1 / u"
      using u by (simp add: divide_right_mono)
    then have "round_half_even (x / u) \<le> round_half_even (of_int (2 ^ nat (52 - e)))"
      unfolding inv by (rule round_half_even_mono)
    then show ?thesis
      by (simp only: round_half_even_of_int)
  next
    case False
    then have "2 powi 0 \<le> x"
      by simp
    then have "floor_log2 x = 0"
      using \<open>x < 2 powi 1\<close> by (intro floor_log2_eq) simp_all
    then have e0: "e = 0"
      by (simp add: e_def)
    have "x / u = x * 2 ^ 52"
      by (simp add: u_def e0 power_int_minus field_simps)
    also have "\<dots> \<le> (1 + 1 / 2 ^ 53) * 2 ^ 52"
      using assms(2) by (intro mult_right_mono) simp_all
    also have "\<dots> = of_int (2 ^ 52) + 1 / 2"
      by simp
    finally have "round_half_even (x / u) \<le> round_half_even (of_int (2 ^ 52) + 1 / 2)"
      by (rule round_half_even_mono)
    also have "\<dots> = 2 ^ 52"
      by (rule round_half_even_tie) simp
    finally show ?thesis
      by (simp add: e0)
  qed
  then have "(of_int (round_half_even (x / u)) :: rat) \<le> of_int (2 ^ nat (52 - e))"
    by (simp only: of_int_le_iff)
  then have "of_int (round_half_even (x / u)) * u \<le> 1 / u * u"
    unfolding inv [symmetric] using u by (intro mult_right_mono) simp_all
  then show ?thesis
    using u by (simp add: rd)
qed

lemma round_double_one [simp]: "round_double 1 = 1"
  by code_simp

lemma round_double_half [simp]: "round_double (1 / 2) = 1 / 2"
  by code_simp

lemma round_double_zero [simp]: "round_double 0 = 0"
  by (simp add: round_double_def)

lemma round_double_error_unit:
  assumes "0 \<le> x" and "x \<le> 1"
  shows "\<bar>round_double x - x\<bar> \<le> 1 / 2 ^ 54"
proof -
  consider "x = 0" | "x = 1" | "0 < x" "x < 1"
    using assms by linarith
  then show ?thesis
  proof cases
    case 3
    then have "\<bar>round_double x - x\<bar> \<le> 2 powi (0 - 54)"
      by (intro round_double_error_below) simp_all
    then show ?thesis
      by (simp add: power_int_minus field_simps)
  qed simp_all
qed

lemma round_double_error_half:
  assumes "0 \<le> x" and "x \<le> 1 / 2"
  shows "\<bar>round_double x - x\<bar> \<le> 1 / 2 ^ 55"
proof -
  consider "x = 0" | "x = 1 / 2" | "0 < x" "x < 1 / 2"
    using assms by linarith
  then show ?thesis
  proof cases
    case 1
    then show ?thesis by simp
  next
    case 2
    have "round_double x - x = 0"
      unfolding 2 by simp
    then show ?thesis by simp
  next
    case 3
    then have "\<bar>round_double x - x\<bar> \<le> 2 powi (- 1 - 54)"
      by (intro round_double_error_below) (simp_all add: power_int_minus)
    then show ?thesis
      by (simp add: power_int_minus field_simps)
  qed
qed

text \<open>Two quotients that add up to at most 1: their doubles add up to at most
  \<open>1 + 2\<^sup>-\<^sup>5\<^sup>3\<close> exactly, and to at most 1 in double arithmetic.\<close>

lemma sum_of_near:
  fixes a b x y :: rat
  assumes "\<bar>a - x\<bar> \<le> d1" "\<bar>b - y\<bar> \<le> d2" "x + y \<le> 1" "d1 + d2 \<le> d"
  shows "a + b \<le> 1 + d"
  using assms by linarith

lemma rounded_parts_sum:
  assumes "0 \<le> x" "0 \<le> y" "x + y \<le> 1"
  shows "round_double x + round_double y \<le> 1 + 1 / 2 ^ 53"
proof -
  have x1: "x \<le> 1" and y1: "y \<le> 1"
    using assms by linarith+
  have ex: "\<bar>round_double x - x\<bar> \<le> 1 / 2 ^ 54"
    using assms(1) x1 by (rule round_double_error_unit)
  have ey: "\<bar>round_double y - y\<bar> \<le> 1 / 2 ^ 54"
    using assms(2) y1 by (rule round_double_error_unit)
  consider "x \<le> 1 / 2" | "y \<le> 1 / 2"
    using assms(3) by linarith
  then show ?thesis
  proof cases
    case 1
    with assms(1) have "\<bar>round_double x - x\<bar> \<le> 1 / 2 ^ 55"
      by (rule round_double_error_half)
    then show ?thesis
      using ey assms(3) by (rule sum_of_near) simp
  next
    case 2
    with assms(2) have "\<bar>round_double y - y\<bar> \<le> 1 / 2 ^ 55"
      by (rule round_double_error_half)
    then have "round_double y + round_double x \<le> 1 + 1 / 2 ^ 53"
      using ex by (rule sum_of_near) (use assms(3) in simp_all)
    then show ?thesis
      by (simp add: add.commute)
  qed
qed

lemma double_add_parts:
  assumes "0 \<le> x" "0 \<le> y" "x + y \<le> 1"
  shows "double_add (round_double x) (round_double y) \<le> 1"
  unfolding double_add_def
  using assms by (intro round_double_le_one add_nonneg_nonneg round_double_nonneg rounded_parts_sum)

section \<open>Properties of the Outcome Analyzer\<close>

lemma transition_step_fields:
  "test_regressions (transition_step sts i c) =
     test_regressions c + (if test_regression (sts ! (i - 1)) (sts ! i) then 1 else 0)"
  "test_progressions (transition_step sts i c) =
     test_progressions c + (if test_progression (sts ! (i - 1)) (sts ! i) then 1 else 0)"
  "compile_regressions (transition_step sts i c) =
     compile_regressions c + (if compile_regression (sts ! (i - 1)) (sts ! i) then 1 else 0)"
  "compile_progressions (transition_step sts i c) =
     compile_progressions c + (if compile_progression (sts ! (i - 1)) (sts ! i) then 1 else 0)"
  "total_transitions (transition_step sts i c) = total_transitions c + 1"
  by (auto simp: transition_step_def Let_def test_regression_def test_progression_def
      compile_regression_def compile_progression_def)

text \<open>The loop invariant: after the indices below \<open>k\<close>, each counter has grown by the
  number of pairs of its kind met so far.\<close>

lemma fold_transition_step:
  "test_regressions (fold (transition_step sts) [1..<k] c) =
     test_regressions c + pairs_upto test_regression sts k \<and>
   test_progressions (fold (transition_step sts) [1..<k] c) =
     test_progressions c + pairs_upto test_progression sts k \<and>
   compile_regressions (fold (transition_step sts) [1..<k] c) =
     compile_regressions c + pairs_upto compile_regression sts k \<and>
   compile_progressions (fold (transition_step sts) [1..<k] c) =
     compile_progressions c + pairs_upto compile_progression sts k \<and>
   total_transitions (fold (transition_step sts) [1..<k] c) = total_transitions c + (k - 1)"
proof (induction k)
  case 0
  show ?case by (simp add: pairs_upto_def)
next
  case (Suc k)
  show ?case
  proof (cases "k = 0")
    case True
    then show ?thesis by (simp add: pairs_upto_def)
  next
    case False
    then have "[1..<Suc k] = [1..<k] @ [k]" by simp
    with Suc False show ?thesis
      by (simp add: transition_step_fields pairs_upto_def)
  qed
qed

lemma consecutive_pairs_nth:
  "consecutive_pairs sts = map (\<lambda>i. (sts ! (i - 1), sts ! i)) [1..<length sts]"
  by (rule nth_equalityI) (auto simp: consecutive_pairs_def nth_tl)

lemma pairs_upto_length:
  "pairs_upto P sts (length sts) = transitions_where P sts"
  by (simp add: pairs_upto_def transitions_where_def consecutive_pairs_nth filter_map comp_def)

lemma count_transitions_eq:
  "test_regressions (count_transitions sts) = transitions_where test_regression sts"
  "test_progressions (count_transitions sts) = transitions_where test_progression sts"
  "compile_regressions (count_transitions sts) = transitions_where compile_regression sts"
  "compile_progressions (count_transitions sts) = transitions_where compile_progression sts"
  "total_transitions (count_transitions sts) = length sts - 1"
  using fold_transition_step [of sts "length sts" no_transitions]
  by (simp_all add: count_transitions_def no_transitions_def pairs_upto_length)

lemma transitions_where_le: "transitions_where P sts \<le> length sts - 1"
proof -
  have "transitions_where P sts \<le> length (consecutive_pairs sts)"
    unfolding transitions_where_def by (rule length_filter_le)
  then show ?thesis by (simp add: consecutive_pairs_def)
qed

lemma disjoint_filters:
  "(\<And>x. \<not> (P x \<and> Q x)) \<Longrightarrow> length (filter P xs) + length (filter Q xs) \<le> length xs"
  by (induction xs) auto

text \<open>No pair is both a compile regression and a compile progression.\<close>

lemma compile_transitions_le:
  "transitions_where compile_regression sts + transitions_where compile_progression sts
     \<le> length sts - 1"
proof -
  have "transitions_where compile_regression sts + transitions_where compile_progression sts
          \<le> length (consecutive_pairs sts)"
    unfolding transitions_where_def
    by (rule disjoint_filters) (auto simp: compile_regression_def compile_progression_def)
  then show ?thesis by (simp add: consecutive_pairs_def)
qed

lemma transitions_where_short: "length sts < 2 \<Longrightarrow> transitions_where P sts = 0"
  using transitions_where_le [of P sts] by simp

lemma rate_quotient:
  assumes "k \<le> n"
  shows "0 \<le> (of_nat k / of_nat (max n 1) :: rat) \<and> (of_nat k / of_nat (max n 1) :: rat) \<le> 1"
  using assms by (simp add: divide_le_eq_1 max_def)

lemma rate_bounds:
  assumes "k \<le> n"
  shows "0 \<le> rate k n \<and> rate k n \<le> 1"
proof -
  have q: "0 \<le> (of_nat k / of_nat (max n 1) :: rat)" "(of_nat k / of_nat (max n 1) :: rat) \<le> 1"
    using rate_quotient [OF assms] by simp_all
  have "(1::rat) \<le> 1 + 1 / 2 ^ 53"
    by simp
  with q(2) have "(of_nat k / of_nat (max n 1) :: rat) \<le> 1 + 1 / 2 ^ 53"
    by (rule order_trans)
  with q(1) have "rate k n \<le> 1"
    unfolding rate_def true_divide_def by (rule round_double_le_one)
  moreover have "0 \<le> rate k n"
    unfolding rate_def true_divide_def using q(1) by (rule round_double_nonneg)
  ultimately show ?thesis by simp
qed

text \<open>Two counts that add up to at most the number of transitions: the two rates add up
  to at most 1 in double arithmetic, and exactly to at most \<open>1 + 2\<^sup>-\<^sup>5\<^sup>3\<close>.\<close>

lemma rate_sum:
  assumes "j + k \<le> n"
  shows "double_add (rate j n) (rate k n) \<le> 1 \<and> rate j n + rate k n \<le> 1 + 1 / 2 ^ 53"
proof -
  have j: "0 \<le> (of_nat j / of_nat (max n 1) :: rat)"
   and k: "0 \<le> (of_nat k / of_nat (max n 1) :: rat)"
    by simp_all
  have "(of_nat j / of_nat (max n 1) :: rat) + of_nat k / of_nat (max n 1)
          = of_nat (j + k) / of_nat (max n 1)"
    by (simp add: add_divide_distrib)
  then have s: "(of_nat j / of_nat (max n 1) :: rat) + of_nat k / of_nat (max n 1) \<le> 1"
    using rate_quotient [OF assms] by simp
  show ?thesis
    unfolding rate_def true_divide_def
    using double_add_parts [OF j k s] rounded_parts_sum [OF j k s] by simp
qed

lemma compute_regression_rates_eq:
  "regression_rates.test_regression_rate (compute_regression_rates episode) =
     rate (transitions_where test_regression (states episode)) (length (states episode) - 1)"
  "regression_rates.test_progression_rate (compute_regression_rates episode) =
     rate (transitions_where test_progression (states episode)) (length (states episode) - 1)"
  "regression_rates.compile_regression_rate (compute_regression_rates episode) =
     rate (transitions_where compile_regression (states episode)) (length (states episode) - 1)"
  "regression_rates.compile_progression_rate (compute_regression_rates episode) =
     rate (transitions_where compile_progression (states episode)) (length (states episode) - 1)"
  by (simp_all add: compute_regression_rates_def Let_def count_transitions_eq
      transitions_where_short rate_def true_divide_def)

lemma alternating_rates:
  "regression_rates.compile_regression_rate (compute_regression_rates alternating_episode)
     = 8696606176991303 / 2 ^ 54"
  "regression_rates.compile_progression_rate (compute_regression_rates alternating_episode)
     = 4658896166245341 / 2 ^ 53"
  "transitions_where compile_regression (states alternating_episode) = 14"
  "length (states alternating_episode) - 1 = 29"
  by code_simp+

text \<open>
  Claim C8, as the claim states it, fails on the code. For the episode of thirty states
  that compile at every odd position, the compile regression rate is the double
  nearest to 14/29, which is not 14/29, and the compile progression rate is the double
  nearest to 15/29; the sum of these two numbers is \<open>1 + 2\<^sup>-\<^sup>5\<^sup>4\<close>, more than 1.
\<close>

theorem exact_rates_counterexample:
  "\<not> (regression_rates.compile_regression_rate (compute_regression_rates alternating_episode)
        + regression_rates.compile_progression_rate (compute_regression_rates alternating_episode)
        \<le> 1) \<and>
   regression_rates.compile_regression_rate (compute_regression_rates alternating_episode)
     \<noteq> of_nat (transitions_where compile_regression (states alternating_episode))
         / of_nat (max 1 (length (states alternating_episode) - 1))"
  unfolding alternating_rates by simp

text \<open>
  Claim C8, amended. For every episode, each of the four rates that
  \<open>_compute_regression_rates\<close> returns is the number of consecutive pairs of its kind
  divided by \<open>max(1, number of consecutive pairs)\<close> in Python's float arithmetic, that
  is the double nearest to the quotient; each rate lies between 0 and 1; the compile
  regression rate and the compile progression rate add up to at most 1 when added as
  floats, and their exact sum is at most \<open>1 + 2\<^sup>-\<^sup>5\<^sup>3\<close>.
\<close>

theorem regression_rates_rounded:
  "(let r = compute_regression_rates episode;
        sts = states episode;
        n = length sts - 1
    in regression_rates.test_regression_rate r =
         true_divide (transitions_where test_regression sts) (max 1 n) \<and>
       regression_rates.test_progression_rate r =
         true_divide (transitions_where test_progression sts) (max 1 n) \<and>
       regression_rates.compile_regression_rate r =
         true_divide (transitions_where compile_regression sts) (max 1 n) \<and>
       regression_rates.compile_progression_rate r =
         true_divide (transitions_where compile_progression sts) (max 1 n) \<and>
       0 \<le> regression_rates.test_regression_rate r \<and>
       regression_rates.test_regression_rate r \<le> 1 \<and>
       0 \<le> regression_rates.test_progression_rate r \<and>
       regression_rates.test_progression_rate r \<le> 1 \<and>
       0 \<le> regression_rates.compile_regression_rate r \<and>
       regression_rates.compile_regression_rate r \<le> 1 \<and>
       0 \<le> regression_rates.compile_progression_rate r \<and>
       regression_rates.compile_progression_rate r \<le> 1 \<and>
       double_add (regression_rates.compile_regression_rate r)
         (regression_rates.compile_progression_rate r) \<le> 1 \<and>
       regression_rates.compile_regression_rate r
         + regression_rates.compile_progression_rate r \<le> 1 + 1 / 2 ^ 53)"
proof -
  define r where "r = compute_regression_rates episode"
  define n where "n = length (states episode) - 1"
  have eqs:
    "regression_rates.test_regression_rate r =
       true_divide (transitions_where test_regression (states episode)) (max 1 n)"
    "regression_rates.test_progression_rate r =
       true_divide (transitions_where test_progression (states episode)) (max 1 n)"
    "regression_rates.compile_regression_rate r =
       true_divide (transitions_where compile_regression (states episode)) (max 1 n)"
    "regression_rates.compile_progression_rate r =
       true_divide (transitions_where compile_progression (states episode)) (max 1 n)"
    unfolding r_def n_def by (simp_all add: compute_regression_rates_eq rate_def max.commute)
  have b1: "0 \<le> regression_rates.test_regression_rate r \<and>
            regression_rates.test_regression_rate r \<le> 1"
    unfolding r_def compute_regression_rates_eq
    by (rule rate_bounds) (rule transitions_where_le)
  have b2: "0 \<le> regression_rates.test_progression_rate r \<and>
            regression_rates.test_progression_rate r \<le> 1"
    unfolding r_def compute_regression_rates_eq
    by (rule rate_bounds) (rule transitions_where_le)
  have b3: "0 \<le> regression_rates.compile_regression_rate r \<and>
            regression_rates.compile_regression_rate r \<le> 1"
    unfolding r_def compute_regression_rates_eq
    by (rule rate_bounds) (rule transitions_where_le)
  have b4: "0 \<le> regression_rates.compile_progression_rate r \<and>
            regression_rates.compile_progression_rate r \<le> 1"
    unfolding r_def compute_regression_rates_eq
    by (rule rate_bounds) (rule transitions_where_le)
  have s: "double_add (regression_rates.compile_regression_rate r)
             (regression_rates.compile_progression_rate r) \<le> 1 \<and>
           regression_rates.compile_regression_rate r
             + regression_rates.compile_progression_rate r \<le> 1 + 1 / 2 ^ 53"
    unfolding r_def compute_regression_rates_eq
    by (rule rate_sum) (rule compile_transitions_le)
  show ?thesis
    unfolding Let_def r_def [symmetric] n_def [symmetric]
    using eqs b1 b2 b3 b4 s by blast
qed

section \<open>Properties of the Latency Analyzer\<close>

lemma collect_latencies_short: "length sts < 2 \<Longrightarrow> collect_latencies sts = []"
  by (cases sts) (simp_all add: collect_latencies_def)

lemma latency_step_positive:
  "(\<And>d. d \<in> set acc \<Longrightarrow> 0 < d) \<Longrightarrow> d \<in> set (latency_step sts i acc) \<Longrightarrow> 0 < d"
  by (auto simp: latency_step_def Let_def split: option.splits if_splits)

lemma fold_latency_step_positive:
  "(\<And>d. d \<in> set acc \<Longrightarrow> 0 < d) \<Longrightarrow> d \<in> set (fold (latency_step sts) idx acc) \<Longrightarrow> 0 < d"
proof (induction idx arbitrary: acc)
  case Nil
  then show ?case by simp
next
  case (Cons i idx)
  show ?case
  proof (rule Cons.IH [of "latency_step sts i acc"])
    show "\<And>d. d \<in> set (latency_step sts i acc) \<Longrightarrow> 0 < d"
      using Cons.prems(1) latency_step_positive by blast
    show "d \<in> set (fold (latency_step sts) idx (latency_step sts i acc))"
      using Cons.prems(2) by simp
  qed
qed

text \<open>Every delta the analyzer keeps is positive.\<close>

lemma valid_deltas_positive: "d \<in> set (valid_deltas episode) \<Longrightarrow> 0 < d"
  unfolding valid_deltas_def collect_latencies_def
  by (rule fold_latency_step_positive [of "[]"]) simp_all

text \<open>The three indices are in range and ordered, so the reads never raise IndexError.\<close>

lemma percentile_index_less: "0 < n \<Longrightarrow> num < 100 \<Longrightarrow> percentile_index n num < n"
  unfolding percentile_index_def
  by (metis less_mult_imp_div_less mult.commute mult_less_cancel1)

lemma percentile_index_mono: "a \<le> b \<Longrightarrow> percentile_index n a \<le> percentile_index n b"
  unfolding percentile_index_def by (simp add: div_le_mono)

lemma percentile_at_value:
  "xs \<noteq> [] \<Longrightarrow> num < 100 \<Longrightarrow>
   percentile_at xs num = Inr (xs ! percentile_index (length xs) num)"
  by (simp add: percentile_at_def py_nth_def percentile_index_less)

lemma sorted_percentiles:
  assumes "sorted xs" "xs \<noteq> []" "a \<le> b" "b < 100"
  shows "xs ! percentile_index (length xs) a \<le> xs ! percentile_index (length xs) b"
proof -
  have "percentile_index (length xs) b < length xs"
    using assms by (simp add: percentile_index_less)
  then show ?thesis
    using assms percentile_index_mono [of a b "length xs"] by (simp add: sorted_nth_mono)
qed

lemma compute_latency_stats_value:
  assumes "valid_deltas episode \<noteq> []"
  shows "compute_latency_stats episode =
           Inr \<lparr> latency_stats.p50_latency_ms =
                   sort (valid_deltas episode) ! percentile_index (length (valid_deltas episode)) 50,
                 p90_latency_ms =
                   sort (valid_deltas episode) ! percentile_index (length (valid_deltas episode)) 90,
                 p99_latency_ms =
                   sort (valid_deltas episode) ! percentile_index (length (valid_deltas episode)) 99 \<rparr>"
proof -
  have len: "\<not> length (states episode) < 2"
    using assms collect_latencies_short [of "sort_key timestep (states episode)"]
    by (auto simp: valid_deltas_def)
  have ne: "sort (valid_deltas episode) \<noteq> []"
    using assms by (metis length_sort length_0_conv)
  show ?thesis
    using len assms ne
    by (simp add: compute_latency_stats_def Let_def valid_deltas_def [symmetric]
        percentile_at_value)
qed

lemma compute_latency_stats_none:
  "valid_deltas episode = [] \<Longrightarrow> compute_latency_stats episode = Inr no_latency"
  by (simp add: compute_latency_stats_def Let_def valid_deltas_def)

text \<open>
  Claim C9. For every episode whose list of valid positive deltas is not empty,
  \<open>_compute_latency_stats\<close> returns, and the percentiles it reports are ordered:
  p50 is at most p90, and p90 is at most p99.
\<close>

theorem latency_percentiles_monotonic:
  assumes "valid_deltas episode \<noteq> []"
  shows "\<exists>lat. compute_latency_stats episode = Inr lat \<and>
           latency_stats.p50_latency_ms lat \<le> latency_stats.p90_latency_ms lat \<and>
           latency_stats.p90_latency_ms lat \<le> latency_stats.p99_latency_ms lat"
proof -
  let ?xs = "sort (valid_deltas episode)"
  have s: "sorted ?xs" by simp
  have ne: "?xs \<noteq> []"
    using assms by (metis length_sort length_0_conv)
  have "?xs ! percentile_index (length ?xs) 50 \<le> ?xs ! percentile_index (length ?xs) 90"
    by (rule sorted_percentiles [OF s ne]) simp_all
  moreover
  have "?xs ! percentile_index (length ?xs) 90 \<le> ?xs ! percentile_index (length ?xs) 99"
    by (rule sorted_percentiles [OF s ne]) simp_all
  ultimately show ?thesis
    using compute_latency_stats_value [OF assms] by simp
qed

lemma mixed_episode_deltas: "valid_deltas mixed_episode = [40, 50]"
  by code_simp

theorem latency_percentiles_monotonic_witness:
  "valid_deltas mixed_episode \<noteq> [] \<and>
   (\<exists>lat. compute_latency_stats mixed_episode = Inr lat \<and>
      latency_stats.p50_latency_ms lat \<le> latency_stats.p90_latency_ms lat \<and>
      latency_stats.p90_latency_ms lat \<le> latency_stats.p99_latency_ms lat)"
proof -
  have h: "valid_deltas mixed_episode \<noteq> []"
    by (simp add: mixed_episode_deltas)
  show ?thesis
    using h latency_percentiles_monotonic [OF h] by simp
qed

section \<open>Properties of the cursor distance\<close>

lemma cursor_scan_skip:
  "yields_no_cursor entry \<Longrightarrow> cursor_scan (entry # rest) = cursor_scan rest"
  by (cases entry) (auto split: option.splits json.splits)

lemma cursor_scan_skip_all:
  "list_all yields_no_cursor skipped \<Longrightarrow> cursor_scan (skipped @ rest) = cursor_scan rest"
  by (induction skipped) (simp_all add: cursor_scan_skip)

lemma get_cursor_line_scan:
  "get_cursor_line_from_attribution entries = cursor_scan entries"
  by (cases entries) (simp_all add: get_cursor_line_from_attribution_def)

lemma no_cursor_line_distance:
  "get_cursor_line_from_attribution (attribution st) = Inr JNull \<Longrightarrow>
   calculate_cursor_distance st = Inr 0"
  by (simp add: calculate_cursor_distance_def split: option.splits)

text \<open>
  Claim C10. Attribution entries that yield no cursor line (entries that are not
  dicts, cursors that are not dicts, cursor dicts with neither a line nor a char key)
  are skipped: the scan of a list that starts with such entries gives what the scan of
  the later entries gives. When all entries of a state are of this kind, the cursor
  distance is 0 and no exception is raised.
\<close>

theorem cursor_scan_skips_unusable_entries:
  assumes "list_all yields_no_cursor skipped"
  shows "get_cursor_line_from_attribution (skipped @ rest) =
           get_cursor_line_from_attribution rest \<and>
         get_cursor_line_from_attribution skipped = Inr JNull \<and>
         (attribution st = skipped \<longrightarrow> calculate_cursor_distance st = Inr 0)"
proof -
  have a: "get_cursor_line_from_attribution (skipped @ rest) =
             get_cursor_line_from_attribution rest"
    using assms by (simp add: get_cursor_line_scan cursor_scan_skip_all)
  have "cursor_scan (skipped @ []) = cursor_scan []"
    using assms by (rule cursor_scan_skip_all)
  then have b: "get_cursor_line_from_attribution skipped = Inr JNull"
    by (simp add: get_cursor_line_scan)
  from a b show ?thesis
    by (simp add: no_cursor_line_distance)
qed

theorem cursor_scan_skips_unusable_entries_witness:
  "list_all yields_no_cursor cursorless_entries \<and>
   get_cursor_line_from_attribution
     (cursorless_entries @ [JDict [(''cursor'', JDict [(''char'', JInt 400)])]]) = Inr (JInt 5) \<and>
   attribution cursorless_state = cursorless_entries \<and>
   calculate_cursor_distance cursorless_state = Inr 0"
proof -
  have h: "list_all yields_no_cursor cursorless_entries"
    by (simp add: cursorless_entries_def)
  have r: "get_cursor_line_from_attribution [JDict [(''cursor'', JDict [(''char'', JInt 400)])]]
             = Inr (JInt 5)"
    by (simp add: get_cursor_line_from_attribution_def py_floordiv_def dict_get_def)
  have s: "attribution cursorless_state = cursorless_entries"
    by (simp add: cursorless_state_def)
  show ?thesis
    using cursor_scan_skips_unusable_entries
      [OF h, of "[JDict [(''cursor'', JDict [(''char'', JInt 400)])]]" cursorless_state] h r s
    by simp
qed

section \<open>Properties of the Record Assembler\<close>

text \<open>With complete count dicts the constructor call finds every key.\<close>

lemma complete_counts_has_all_members:
  assumes "complete_counts acc"
  shows "has_all_members (assistant_actions acc) \<and> has_all_members (human_actions acc)"
proof -
  have "\<And>k. k \<in> fst ` set (assistant_actions acc)"
    using assms ActionIndex_members_all unfolding complete_counts_def by (metis set_map)
  moreover have "\<And>k. k \<in> fst ` set (human_actions acc)"
    using assms ActionIndex_members_all unfolding complete_counts_def by (metis set_map)
  ultimately show ?thesis
    by (simp add: has_all_members_def list_all_iff map_of_eq_None_iff)
qed

subsection \<open>When the assembler returns\<close>

lemma compute_latency_stats_returns: "\<exists>lat. compute_latency_stats episode = Inr lat"
  using compute_latency_stats_value [of episode] compute_latency_stats_none [of episode]
  by (cases "valid_deltas episode = []") simp_all

text \<open>The assembler returns when the identity lookup and the dataset lookup return, the
  type of every state can be extracted, and the timestamp of the first passing state
  converts to an integer. Neither the KeyError of a count dict nor the IndexError of a
  percentile can occur.\<close>

lemma convert_returns:
  assumes "get_user_id environ = Inr uid"
    and "load_problem_question_id environ (problem_id episode) = Inr qid"
    and "list_all extractable (states episode)"
    and "first_pass episode = Inr p"
  shows "\<exists>r. convert_episode_session_to_telemetry_event environ coerce episode = Inr r"
proof -
  obtain stats where stats: "compute_action_statistics coerce episode = Inr stats"
    using assms(3) compute_action_statistics_returns [of coerce episode] by blast
  have "complete_counts stats"
    using action_loop_counts [of coerce "states episode" initial_stats stats] stats
      initial_stats_complete
    by (simp add: compute_action_statistics_def)
  then have keys: "has_all_members (assistant_actions stats) \<and>
                   has_all_members (human_actions stats)"
    by (rule complete_counts_has_all_members)
  obtain lat where lat: "compute_latency_stats episode = Inr lat"
    using compute_latency_stats_returns by blast
  show ?thesis
    unfolding convert_episode_session_to_telemetry_event_def
    using assms(1,2,4) stats keys lat
    by (cases p) (simp add: Let_def split: option.splits)
qed

text \<open>
  Claim C5. For every episode with zero states, in every environment in which the
  identity lookup and the dataset lookup return, the assembler returns a record with
  \<open>total_turns = 0\<close>, the four rates 0, the three percentiles 0, \<open>success\<close> false, and
  \<open>time_to_pass\<close> and \<open>turns_to_pass\<close> null.
\<close>

theorem zero_states_record:
  assumes "states episode = []"
    and "get_user_id environ = Inr uid"
    and "load_problem_question_id environ (problem_id episode) = Inr qid"
  shows "\<exists>r. convert_episode_session_to_telemetry_event environ coerce episode = Inr r \<and>
           total_turns r = 0 \<and>
           test_regression_rate r = 0 \<and> compile_regression_rate r = 0 \<and>
           test_progression_rate r = 0 \<and> compile_progression_rate r = 0 \<and>
           p50_latency_ms r = 0 \<and> p90_latency_ms r = 0 \<and> p99_latency_ms r = 0 \<and>
           \<not> success r \<and> time_to_pass r = None \<and> turns_to_pass r = None"
proof -
  have stats: "compute_action_statistics coerce episode = Inr initial_stats"
    using assms(1) by (simp add: compute_action_statistics_def)
  have rates: "compute_regression_rates episode =
                 \<lparr> regression_rates.test_regression_rate = 0, compile_regression_rate = 0,
                   test_progression_rate = 0, compile_progression_rate = 0 \<rparr>"
    using assms(1) by (simp add: compute_regression_rates_def)
  have lat: "compute_latency_stats episode = Inr no_latency"
    using assms(1) by (simp add: compute_latency_stats_def)
  have fin: "final_state (states episode) = None"
    using assms(1) by (simp add: final_state_def)
  have keys: "has_all_members (assistant_actions initial_stats) \<and>
              has_all_members (human_actions initial_stats)"
    using complete_counts_has_all_members initial_stats_complete by blast
  show ?thesis
    unfolding convert_episode_session_to_telemetry_event_def
    using assms stats rates lat fin keys
    by (simp add: no_latency_def Let_def)
qed

lemma good_environ_lookups:
  "get_user_id good_environ = Inr (JStr ''0xabc'')"
  "load_problem_question_id good_environ pid = Inr (JInt 1)"
  by (simp_all add: good_environ_def get_user_id_def load_problem_question_id_def dict_get_def)

theorem zero_states_record_witness:
  "states empty_episode = [] \<and>
   (\<exists>r. convert_episode_session_to_telemetry_event good_environ ActionIndex_by_name
           empty_episode = Inr r \<and>
      total_turns r = 0 \<and> test_regression_rate r = 0 \<and> p99_latency_ms r = 0 \<and>
      \<not> success r \<and> time_to_pass r = None \<and> turns_to_pass r = None)"
proof -
  have h: "states empty_episode = []"
    by (simp add: empty_episode_def)
  show ?thesis
    using h zero_states_record [OF h good_environ_lookups(1) good_environ_lookups(2),
        of ActionIndex_by_name]
    by auto
qed

text \<open>The parts of the pipeline on the three states of the progression scenario.\<close>

lemma scenario_no_actions: "action_loop coerce scenario_states initial_stats = Inr initial_stats"
  by (simp add: scenario_states_def scenario_state_def action_step_def)

lemma scenario_transitions:
  "count_transitions scenario_states =
     \<lparr> test_regressions = 0, compile_regressions = 0, test_progressions = 1,
       compile_progressions = 1, total_transitions = 2 \<rparr>"
  by code_simp

lemma scenario_sorted: "sort_key timestep scenario_states = scenario_states"
  by code_simp

lemma scenario_latencies: "collect_latencies scenario_states = [100, 150]"
  by code_simp

lemma scenario_final: "final_state scenario_states = Some (scenario_state 2 250 True 1)"
  by code_simp

lemma scenario_first_passing:
  "find passing scenario_states = Some (scenario_state 2 250 True 1)"
  by code_simp

lemma scenario_last_passes: "passing (scenario_state 2 250 True 1)"
  by code_simp

text \<open>
  Claim C6. For an episode whose states are the three states of the scenario
  (timesteps 0, 1, 2; timestamps 0, 100, 250; compiled false, true, true; passed
  tests 0, 0, 1) and whose start time is 0, in every environment in which the identity
  lookup and the dataset lookup return, the assembled record has
  \<open>compile_progression_rate = 1/2\<close>, \<open>test_progression_rate = 1/2\<close>, \<open>success\<close> true,
  \<open>turns_to_pass = 2\<close> and \<open>time_to_pass = 250\<close>.
\<close>

theorem progression_scenario_record:
  assumes "states episode = scenario_states"
    and "start_time episode = 0"
    and "get_user_id environ = Inr uid"
    and "load_problem_question_id environ (problem_id episode) = Inr qid"
  shows "\<exists>r. convert_episode_session_to_telemetry_event environ coerce episode = Inr r \<and>
           compile_progression_rate r = 1 / 2 \<and> test_progression_rate r = 1 / 2 \<and>
           success r \<and> turns_to_pass r = Some 2 \<and> time_to_pass r = Some 250"
proof -
  have len: "length (states episode) = 3"
    using assms(1) by (simp add: scenario_states_def)
  have stats: "compute_action_statistics coerce episode = Inr initial_stats"
    using assms(1) by (simp add: compute_action_statistics_def scenario_no_actions)
  have rates: "compute_regression_rates episode =
                 \<lparr> regression_rates.test_regression_rate = 0, compile_regression_rate = 0,
                   test_progression_rate = 1 / 2, compile_progression_rate = 1 / 2 \<rparr>"
    using assms(1) len
    by (simp add: compute_regression_rates_def scenario_transitions rate_def true_divide_def)
  have lat: "\<exists>l. compute_latency_stats episode = Inr l"
  proof -
    have "valid_deltas episode \<noteq> []"
      using assms(1) by (simp add: valid_deltas_def scenario_sorted scenario_latencies)
    then show ?thesis
      by (simp add: compute_latency_stats_value)
  qed
  then obtain l where lat: "compute_latency_stats episode = Inr l" ..
  have pass: "first_pass episode = Inr (Some 250, Some 2)"
    using assms(1,2)
    by (simp add: first_pass_def scenario_sorted scenario_first_passing scenario_state_def)
  have keys: "has_all_members (assistant_actions initial_stats) \<and>
              has_all_members (human_actions initial_stats)"
    using complete_counts_has_all_members initial_stats_complete by blast
  show ?thesis
    unfolding convert_episode_session_to_telemetry_event_def
    using assms(3,4) stats rates lat pass keys
    by (simp add: assms(1) scenario_final scenario_last_passes Let_def)
qed

theorem progression_scenario_record_witness:
  "states scenario_episode = scenario_states \<and> start_time scenario_episode = 0 \<and>
   (\<exists>r. convert_episode_session_to_telemetry_event good_environ ActionIndex_by_name
           scenario_episode = Inr r \<and>
      compile_progression_rate r = 1 / 2 \<and> test_progression_rate r = 1 / 2 \<and>
      success r \<and> turns_to_pass r = Some 2 \<and> time_to_pass r = Some 250)"
proof -
  have h1: "states scenario_episode = scenario_states"
    by (simp add: scenario_episode_def)
  have h2: "start_time scenario_episode = 0"
    by (simp add: scenario_episode_def)
  show ?thesis
    using h1 h2
      progression_scenario_record [OF h1 h2 good_environ_lookups(1) good_environ_lookups(2),
        of ActionIndex_by_name]
    by simp
qed

section \<open>Where the module departs from the specification\<close>

subsection \<open>The target line of the cursor distance\<close>

text \<open>\<open>_calculate_cursor_distance\<close> reads \<open>"target_line"\<close> from the action dict itself,
  not from its \<open>"A"\<close> or \<open>"H"\<close> branch: with integer values on both sides the distance is
  the absolute difference of that top-level value, or of 1 when the key is absent
  there, and the cursor line.\<close>

lemma cursor_distance_formula:
  assumes "action st = Some a" and "a \<noteq> []"
    and "get_cursor_line_from_attribution (attribution st) = Inr (JInt cursor_line)"
  shows "calculate_cursor_distance st =
           (case map_of a ''target_line'' of
              None \<Rightarrow> Inr \<bar>1 - cursor_line\<bar>
            | Some v \<Rightarrow> (case as_int v of
                           None \<Rightarrow> Inl TypeError
                         | Some target_line \<Rightarrow> Inr \<bar>target_line - cursor_line\<bar>))"
  using assms
  by (simp add: calculate_cursor_distance_def dict_get_def py_sub_def split: option.splits)

text \<open>
  Claim C1, on the code. For the state with action payload
  \<open>{"A": {"type": "edit_existing_lines", "target_line": 10}}\<close> and attribution
  \<open>[{"cursor": {"line": 7}}]\<close>, the classifier increments the assistant count of
  EDIT_EXISTING_LINES and records the distance 6 (that is \<open>|1 - 7|\<close>), not 3, in the
  distance list of EDIT_EXISTING_LINES: the target line 10 sits in the \<open>"A"\<close> branch,
  where the distance function does not look.
\<close>

theorem cursor_scenario_records_six:
  "calculate_cursor_distance edit_state = Inr 6 \<and>
   compute_action_statistics ActionIndex_by_name edit_episode =
     Inr \<lparr> assistant_actions =
             [(NO_OP, 0), (FILL_PARTIAL_LINE, 0), (REPLACE_AND_APPEND_SINGLE_LINE, 0),
              (REPLACE_AND_APPEND_MULTI_LINE, 0), (EDIT_EXISTING_LINES, 1),
              (EXPLAIN_SINGLE_LINES, 0), (EXPLAIN_MULTI_LINE, 0)],
           human_actions =
             [(NO_OP, 0), (FILL_PARTIAL_LINE, 0), (REPLACE_AND_APPEND_SINGLE_LINE, 0),
              (REPLACE_AND_APPEND_MULTI_LINE, 0), (EDIT_EXISTING_LINES, 0),
              (EXPLAIN_SINGLE_LINES, 0), (EXPLAIN_MULTI_LINE, 0)],
           edit_existing_distances = [6],
           explain_single_distances = [],
           explain_multi_distances = [] \<rparr>"
  by (simp add: edit_episode_def edit_state_def classifier_defs)

subsection \<open>Exceptions that reach the caller of the reporter\<close>

text \<open>What the reporter does catch or avoid: a disabled telemetry returns at once, and
  once the record is assembled every outcome of the transport returns normally.\<close>

lemma push_disabled:
  "is_telemetry_disabled environ \<Longrightarrow>
   push_telemetry_event_session environ coerce episode = Inr Disabled"
  by (simp add: push_telemetry_event_session_def)

lemma push_returns_after_assembly:
  "convert_episode_session_to_telemetry_event environ coerce episode = Inr r \<Longrightarrow>
   \<exists>res. push_telemetry_event_session environ coerce episode = Inr res"
  by (simp add: push_telemetry_event_session_def split: sum.splits)

text \<open>A failed IP lookup is caught by the assembler; a failed identity lookup is not,
  and with telemetry enabled it leaves the reporter.\<close>

lemma identity_failure_propagates:
  "\<not> is_telemetry_disabled environ \<Longrightarrow> user_key_map_file environ = Inl e \<Longrightarrow>
   push_telemetry_event_session environ coerce episode = Inl e"
  by (simp add: push_telemetry_event_session_def convert_episode_session_to_telemetry_event_def
      get_user_id_def)

text \<open>
  Claim C2, on the code. With telemetry enabled and an identity file that cannot be
  opened, \<open>push_telemetry_event_session\<close> does not return normally: the exception of
  \<open>get_user_id\<close> passes through the assembler, which is called outside the \<open>try\<close>, and
  reaches the caller. The episode has no states and every other collaborator answers.
\<close>

theorem push_propagates_identity_failure:
  "\<not> is_telemetry_disabled unreadable_identity_environ \<and>
   push_telemetry_event_session unreadable_identity_environ ActionIndex_by_name empty_episode
     = Inl (OtherError ''FileNotFoundError'')"
  by code_simp

subsection \<open>Action payloads of the wrong shape\<close>

text \<open>A state whose type value the enum does not know is skipped: the accumulators
  are unchanged and no exception is raised.\<close>

lemma unknown_type_skipped:
  assumes "action st = Some a"
    and "action_type_of a (is_assistant_action (action st)) = Inr action_type"
    and "coerce action_type = None"
  shows "action_step coerce st acc = Inr acc"
  using assms by (simp add: action_step_def)

text \<open>A state whose action dict lacks the branch the classifier reads, or holds
  something that is not a dict there, raises AttributeError.\<close>

lemma wrong_shape_raises:
  assumes "action st = Some a"
    and "action_type_of a (is_assistant_action (action st)) = Inl e"
  shows "action_step coerce st acc = Inl e"
  using assms by (simp add: action_step_def)

lemma missing_branch_raises:
  assumes "action st = Some a" and "map_of a ''A'' = None" and "map_of a ''H'' = None"
  shows "action_step coerce st acc = Inl AttributeError"
  using assms by (simp add: action_step_def action_type_of_def is_assistant_action_def dict_get_def)

text \<open>
  Claim C3, on the code. The state with the non-null action \<open>{"type": "no_op"}\<close>, which
  has no \<open>"A"\<close> and no \<open>"H"\<close> branch, is not skipped: extracting the type raises
  AttributeError before the \<open>try\<close>, and the exception leaves the classifier, the
  assembler and the reporter.
\<close>

theorem untagged_action_raises:
  "action_step ActionIndex_by_name untagged_state initial_stats = Inl AttributeError \<and>
   compute_action_statistics ActionIndex_by_name untagged_episode = Inl AttributeError \<and>
   push_telemetry_event_session good_environ ActionIndex_by_name untagged_episode
     = Inl AttributeError"
  by code_simp

subsection \<open>The timestamp of the first passing state\<close>

text \<open>A first passing state without the attribute \<open>timestamp_ms\<close> counts as timestamp 0.\<close>

lemma missing_timestamp_is_zero:
  assumes "find passing (sort_key timestep (states episode)) = Some s"
    and "timestamp_ms s = None"
  shows "first_pass episode = Inr (Some (max 0 (0 - start_time episode)), Some (timestep s))"
  using assms by (simp add: first_pass_def)

lemma missing_timestamp_example:
  "first_pass missing_timestamp_episode = Inr (Some 0, Some 0)"
  by code_simp

text \<open>
  Claim C4, on the code. A first passing state whose \<open>timestamp_ms\<close> is null is not
  treated as timestamp 0: \<open>int(None)\<close> raises TypeError, which leaves the assembler.
  A \<open>timestamp_ms\<close> that is a word raises ValueError in the same place.
\<close>

theorem null_timestamp_raises:
  "first_pass null_timestamp_episode = Inl TypeError \<and>
   convert_episode_session_to_telemetry_event good_environ ActionIndex_by_name
     null_timestamp_episode = Inl TypeError \<and>
   first_pass worded_timestamp_episode = Inl ValueError"
  by code_simp

end
